theory Spec2Isabelle
  imports Main "HOL-Library.Word"
begin

section \<open>Data model of \<open>src/main.c\<close>\<close>

text \<open>
  A C \<open>int\<close> is a 32-bit two's complement value. A pointer is either \<open>NULL\<close> or the
  address of a heap cell. The only functions whose address is ever taken are
  \<open>draw_rect\<close> and \<open>draw_circle\<close>, so a function pointer of type
  \<open>void (*)(Figure*)\<close> is one of two tokens.
\<close>

type_synonym c_int = "32 word"

datatype ptr = NULL | Ptr nat

datatype fun_ptr = Fn_draw_rect | Fn_draw_circle

record FigureVTable =
  draw :: fun_ptr

record Figure =
  vtable :: FigureVTable

record Rect =
  base :: Figure
  perimeter :: c_int

record Circle =
  base :: Figure
  radius :: c_int

text \<open>
  A heap cell remembers which struct it was allocated as. Reading the \<open>Figure\<close> prefix
  through an upcast pointer works for both structs, since \<open>base\<close> is their first member.
\<close>

datatype object = Rect_obj Rect | Circle_obj Circle

fun figure_of :: "object \<Rightarrow> Figure" where
  "figure_of (Rect_obj r) = Rect.base r"
| "figure_of (Circle_obj c) = Circle.base c"

text \<open>
  The program state: the two file-scope vtables (they are \<open>static\<close> but not \<open>const\<close>,
  hence part of the mutable state), the heap, the allocator (next fresh address and the
  number of cells it can still hand out) and the characters written to standard output.
\<close>

record state =
  rect_vtable :: FigureVTable
  circle_vtable :: FigureVTable
  heap :: "nat \<rightharpoonup> object"
  brk :: nat
  heap_avail :: nat
  stdout :: string

text \<open>
  How a run can end other than by returning. \<open>Aborted\<close> is the defined abnormal
  termination of C (a call of \<open>abort\<close>, a failed \<open>assert\<close>); the program includes
  \<open>assert.h\<close> but makes no such call, so no function below returns it. The other
  three are undefined behaviours: a store or call through \<open>NULL\<close>, an access through a
  pointer to no live object, and an access to a \<open>Rect\<close> through a \<open>Circle*\<close> or the
  reverse.
\<close>

datatype error = Aborted | Null_deref | Invalid_pointer | Bad_downcast

section \<open>The C library used by the program\<close>

text \<open>
  \<open>malloc\<close> returns \<open>NULL\<close> when the allocator is exhausted and a fresh address
  otherwise.
\<close>

definition malloc :: "state \<Rightarrow> ptr \<times> state" where
  "malloc s =
     (if heap_avail s = 0 then (NULL, s)
      else (Ptr (brk s), s\<lparr>brk := Suc (brk s), heap_avail := heap_avail s - 1\<rparr>))"

text \<open>
  \<open>printf\<close> with the conversion \<open>%d\<close>: the signed decimal rendering of an \<open>int\<close>.
  The result of \<open>printf\<close> is ignored by the program and is not modelled. A format with
  fewer arguments than conversions does not occur in the program; the model stops
  printing there.
\<close>

definition digit_char :: "nat \<Rightarrow> char" where
  "digit_char d = ''0123456789'' ! d"

function show_nat :: "nat \<Rightarrow> string" where
  "show_nat n =
     (if n < 10 then [digit_char n] else show_nat (n div 10) @ [digit_char (n mod 10)])"
  by pat_completeness auto
termination
  by (relation "measure (\<lambda>n. n)") auto

declare show_nat.simps [simp del]

definition show_int :: "int \<Rightarrow> string" where
  "show_int i = (if i < 0 then CHR ''-'' # show_nat (nat (- i)) else show_nat (nat i))"

fun format :: "string \<Rightarrow> c_int list \<Rightarrow> string" where
  "format [] args = []"
| "format [c] args = [c]"
| "format (c # d # cs) args =
     (if c = CHR ''%'' \<and> d = CHR ''d'' then
        (case args of [] \<Rightarrow> [] | a # as \<Rightarrow> show_int (sint a) @ format cs as)
      else c # format (d # cs) args)"

definition printf :: "string \<Rightarrow> c_int list \<Rightarrow> state \<Rightarrow> state" where
  "printf fmt args s = s\<lparr>stdout := stdout s @ format fmt args\<rparr>"

section \<open>The program\<close>

subsection \<open>"Virtual" functions\<close>

text \<open>
  The downcast \<open>(Rect*)self\<close> followed by a field read is defined only when \<open>self\<close>
  points to a live \<open>Rect\<close>; the other cases are errors of the model.
\<close>

definition draw_rect :: "ptr \<Rightarrow> state \<Rightarrow> error + state" where
  "draw_rect self s =
     (case self of
        NULL \<Rightarrow> Inl Null_deref
      | Ptr a \<Rightarrow>
          (case heap s a of
             None \<Rightarrow> Inl Invalid_pointer
           | Some (Rect_obj rect) \<Rightarrow>
               Inr (printf ''Drawing Rect with perimeter: %d\<newline>'' [perimeter rect] s)
           | Some (Circle_obj _) \<Rightarrow> Inl Bad_downcast))"

definition draw_circle :: "ptr \<Rightarrow> state \<Rightarrow> error + state" where
  "draw_circle self s =
     (case self of
        NULL \<Rightarrow> Inl Null_deref
      | Ptr a \<Rightarrow>
          (case heap s a of
             None \<Rightarrow> Inl Invalid_pointer
           | Some (Circle_obj circle) \<Rightarrow>
               Inr (printf ''Drawing Circle with radius: %d\<newline>'' [radius circle] s)
           | Some (Rect_obj _) \<Rightarrow> Inl Bad_downcast))"

fun call_fun_ptr :: "fun_ptr \<Rightarrow> ptr \<Rightarrow> state \<Rightarrow> error + state" where
  "call_fun_ptr Fn_draw_rect self s = draw_rect self s"
| "call_fun_ptr Fn_draw_circle self s = draw_circle self s"

subsection \<open>Vtables\<close>

text \<open>The static initialisers of \<open>rect_vtable\<close> and \<open>circle_vtable\<close>.\<close>

definition rect_vtable_init :: FigureVTable where
  "rect_vtable_init = \<lparr>draw = Fn_draw_rect\<rparr>"

definition circle_vtable_init :: FigureVTable where
  "circle_vtable_init = \<lparr>draw = Fn_draw_circle\<rparr>"

definition statics_initial :: "state \<Rightarrow> bool" where
  "statics_initial s \<longleftrightarrow>
     rect_vtable s = rect_vtable_init \<and> circle_vtable s = circle_vtable_init"

subsection \<open>Constructors\<close>

text \<open>
  The result of \<open>malloc\<close> is not checked: on \<open>NULL\<close> the first store
  \<open>rect->perimeter = perimeter\<close> goes through the null pointer. The two stores
  initialise distinct members of the fresh cell and nothing reads in between, so they
  are one heap update. The vtable is copied by value from the static.
\<close>

definition rect_new :: "c_int \<Rightarrow> state \<Rightarrow> error + (ptr \<times> state)" where
  "rect_new p s =
     (case malloc s of
        (NULL, s') \<Rightarrow> Inl Null_deref
      | (Ptr a, s') \<Rightarrow>
          Inr (Ptr a,
               s'\<lparr>heap := (heap s')(a \<mapsto>
                     Rect_obj \<lparr>Rect.base = \<lparr>vtable = rect_vtable s'\<rparr>, perimeter = p\<rparr>)\<rparr>))"

definition circle_new :: "c_int \<Rightarrow> state \<Rightarrow> error + (ptr \<times> state)" where
  "circle_new r s =
     (case malloc s of
        (NULL, s') \<Rightarrow> Inl Null_deref
      | (Ptr a, s') \<Rightarrow>
          Inr (Ptr a,
               s'\<lparr>heap := (heap s')(a \<mapsto>
                     Circle_obj \<lparr>Circle.base = \<lparr>vtable = circle_vtable s'\<rparr>, radius = r\<rparr>)\<rparr>))"

subsection \<open>Dispatch and driver\<close>

definition call_stuff :: "ptr \<Rightarrow> state \<Rightarrow> error + state" where
  "call_stuff fig s =
     (case fig of
        NULL \<Rightarrow> Inl Null_deref
      | Ptr a \<Rightarrow>
          (case heap s a of
             None \<Rightarrow> Inl Invalid_pointer
           | Some obj \<Rightarrow> call_fun_ptr (draw (vtable (figure_of obj))) fig s))"

definition main :: "state \<Rightarrow> error + (c_int \<times> state)" where
  "main s0 =
     (case rect_new 10 s0 of
        Inl e \<Rightarrow> Inl e
      | Inr (rect, s1) \<Rightarrow>
     (case call_stuff rect s1 of
        Inl e \<Rightarrow> Inl e
      | Inr s2 \<Rightarrow>
     (case circle_new 8 s2 of
        Inl e \<Rightarrow> Inl e
      | Inr (circle, s3) \<Rightarrow>
     (case call_stuff circle s3 of
        Inl e \<Rightarrow> Inl e
      | Inr s4 \<Rightarrow> Inr (0, s4)))))"

text \<open>
  The state in which \<open>main\<close> is entered: the statics hold their initialisers, nothing
  is allocated, nothing is printed, and the allocator can serve \<open>cap\<close> requests.
\<close>

definition program_start :: "nat \<Rightarrow> state" where
  "program_start cap =
     \<lparr>rect_vtable = rect_vtable_init, circle_vtable = circle_vtable_init,
      heap = Map.empty, brk = 0, heap_avail = cap, stdout = []\<rparr>"

section \<open>Expected output\<close>

text \<open>The two lines as the specification words them, with the line terminator.\<close>

definition rect_line :: "c_int \<Rightarrow> string" where
  "rect_line p = ''Drawing Rect with perimeter: '' @ show_int (sint p) @ ''\<newline>''"

definition circle_line :: "c_int \<Rightarrow> string" where
  "circle_line r = ''Drawing Circle with radius: '' @ show_int (sint r) @ ''\<newline>''"

section \<open>Clients of the Shape interface\<close>

text \<open>
  A heterogeneous sequence of shapes is described by the constructor call that makes
  each element. \<open>construct_all\<close> runs the constructor calls in order and
  \<open>draw_all\<close> passes every resulting \<open>Figure*\<close> to \<open>call_stuff\<close>, as \<open>main\<close> does
  for its two shapes.
\<close>

datatype shape = A_rect c_int | A_circle c_int

fun construct :: "shape \<Rightarrow> state \<Rightarrow> error + (ptr \<times> state)" where
  "construct (A_rect p) s = rect_new p s"
| "construct (A_circle r) s = circle_new r s"

fun construct_all :: "shape list \<Rightarrow> state \<Rightarrow> error + (ptr list \<times> state)" where
  "construct_all [] s = Inr ([], s)"
| "construct_all (x # xs) s =
     (case construct x s of
        Inl e \<Rightarrow> Inl e
      | Inr (fig, s1) \<Rightarrow>
          (case construct_all xs s1 of
             Inl e \<Rightarrow> Inl e
           | Inr (figs, s2) \<Rightarrow> Inr (fig # figs, s2)))"

fun draw_all :: "ptr list \<Rightarrow> state \<Rightarrow> error + state" where
  "draw_all [] s = Inr s"
| "draw_all (fig # figs) s =
     (case call_stuff fig s of Inl e \<Rightarrow> Inl e | Inr s1 \<Rightarrow> draw_all figs s1)"

fun expected_line :: "shape \<Rightarrow> string" where
  "expected_line (A_rect p) = rect_line p"
| "expected_line (A_circle r) = circle_line r"

text \<open>The rendering logic of a shape's own variant.\<close>

fun variant_draw :: "shape \<Rightarrow> ptr \<Rightarrow> state \<Rightarrow> error + state" where
  "variant_draw (A_rect p) = draw_rect"
| "variant_draw (A_circle r) = draw_circle"

text \<open>The heap cell a constructor call leaves behind while the statics hold their initialisers.\<close>

fun object_of :: "shape \<Rightarrow> object" where
  "object_of (A_rect p) = Rect_obj \<lparr>Rect.base = \<lparr>vtable = rect_vtable_init\<rparr>, perimeter = p\<rparr>"
| "object_of (A_circle r) =
     Circle_obj \<lparr>Circle.base = \<lparr>vtable = circle_vtable_init\<rparr>, radius = r\<rparr>"

text \<open>
  Every operation of the program, as a step on the state. A run is a sequence of steps
  from \<open>program_start\<close>; the pointer arguments are arbitrary, so a run may pass any
  pointer to any of the three functions that take one.
\<close>

datatype op =
    Op_rect_new c_int
  | Op_circle_new c_int
  | Op_call_stuff ptr
  | Op_draw_rect ptr
  | Op_draw_circle ptr

fun exec_op :: "op \<Rightarrow> state \<Rightarrow> error + state" where
  "exec_op (Op_rect_new p) s =
     (case rect_new p s of Inl e \<Rightarrow> Inl e | Inr (fig, s1) \<Rightarrow> Inr s1)"
| "exec_op (Op_circle_new r) s =
     (case circle_new r s of Inl e \<Rightarrow> Inl e | Inr (fig, s1) \<Rightarrow> Inr s1)"
| "exec_op (Op_call_stuff fig) s = call_stuff fig s"
| "exec_op (Op_draw_rect fig) s = draw_rect fig s"
| "exec_op (Op_draw_circle fig) s = draw_circle fig s"

fun exec_ops :: "op list \<Rightarrow> state \<Rightarrow> error + state" where
  "exec_ops [] s = Inr s"
| "exec_ops (x # xs) s =
     (case exec_op x s of Inl e \<Rightarrow> Inl e | Inr s1 \<Rightarrow> exec_ops xs s1)"

text \<open>An instance is paired with the draw behaviour of its own variant.\<close>

fun vtable_matches :: "object \<Rightarrow> bool" where
  "vtable_matches (Rect_obj rect) \<longleftrightarrow> draw (vtable (Rect.base rect)) = Fn_draw_rect"
| "vtable_matches (Circle_obj circle) \<longleftrightarrow> draw (vtable (Circle.base circle)) = Fn_draw_circle"

text \<open>The line an instance prints, read off its variant and its integer field alone.\<close>

fun object_line :: "object \<Rightarrow> string" where
  "object_line (Rect_obj rect) = rect_line (perimeter rect)"
| "object_line (Circle_obj circle) = circle_line (radius circle)"

text \<open>A hypothetical later assignment to the two static vtables.\<close>

definition set_statics :: "FigureVTable \<Rightarrow> FigureVTable \<Rightarrow> state \<Rightarrow> state" where
  "set_statics v w s = s\<lparr>rect_vtable := v, circle_vtable := w\<rparr>"

text \<open>
  What every run maintains: the statics keep their initialisers, every live instance is
  paired with its own variant's draw function, and the allocator's next address and
  everything above it is unused.
\<close>

definition run_inv :: "state \<Rightarrow> bool" where
  "run_inv s \<longleftrightarrow>
     statics_initial s \<and>
     (\<forall>a obj. heap s a = Some obj \<longrightarrow> vtable_matches obj) \<and>
     (\<forall>a. brk s \<le> a \<longrightarrow> heap s a = None)"

section \<open>Decimal rendering\<close>

lemma digit_char_in: "d < 10 \<Longrightarrow> digit_char d \<in> set ''0123456789''"
  unfolding digit_char_def by (rule nth_mem) simp

lemma digit_char_inj: "a < 10 \<Longrightarrow> b < 10 \<Longrightarrow> digit_char a = digit_char b \<Longrightarrow> a = b"
proof -
  assume a: "a < 10" and b: "b < 10" and e: "digit_char a = digit_char b"
  have d: "distinct ''0123456789''" by simp
  have "length ''0123456789'' = 10" by simp
  with a b e d show "a = b"
    unfolding digit_char_def by (simp add: nth_eq_iff_index_eq)
qed

lemma show_nat_digits: "set (show_nat n) \<subseteq> set ''0123456789''"
proof (induction n rule: show_nat.induct)
  case (1 n)
  show ?case
  proof (cases "n < 10")
    case True
    then show ?thesis using digit_char_in [of n] by (subst show_nat.simps) simp
  next
    case False
    have "n mod 10 < 10" by simp
    then have "digit_char (n mod 10) \<in> set ''0123456789''" by (rule digit_char_in)
    with False "1.IH" show ?thesis by (subst show_nat.simps) simp
  qed
qed

lemma show_nat_nonempty: "show_nat n \<noteq> []"
  by (subst show_nat.simps) simp

lemma show_nat_inj: "show_nat n = show_nat m \<Longrightarrow> n = m"
proof (induction n arbitrary: m rule: show_nat.induct)
  case (1 n)
  show ?case
  proof (cases "n < 10")
    case n: True
    show ?thesis
    proof (cases "m < 10")
      case True
      with n "1.prems" have "digit_char n = digit_char m"
        by (simp add: show_nat.simps [of n] show_nat.simps [of m])
      with n True show ?thesis by (rule digit_char_inj)
    next
      case False
      with n "1.prems" have "show_nat (m div 10) = []"
        by (simp add: show_nat.simps [of n] show_nat.simps [of m])
      then show ?thesis by (simp add: show_nat_nonempty)
    qed
  next
    case n: False
    show ?thesis
    proof (cases "m < 10")
      case True
      with n "1.prems" have "show_nat (n div 10) = []"
        by (simp add: show_nat.simps [of n] show_nat.simps [of m])
      then show ?thesis by (simp add: show_nat_nonempty)
    next
      case False
      with n "1.prems" have e: "show_nat (n div 10) = show_nat (m div 10)"
        and d: "digit_char (n mod 10) = digit_char (m mod 10)"
        by (simp_all add: show_nat.simps [of n] show_nat.simps [of m])
      from n e have "n div 10 = m div 10" by (rule "1.IH")
      moreover from d have "n mod 10 = m mod 10" by (intro digit_char_inj) simp_all
      ultimately show ?thesis by (metis div_mult_mod_eq)
    qed
  qed
qed

lemma show_nat_no_minus: "CHR ''-'' \<notin> set (show_nat n)"
  using show_nat_digits [of n] by auto

lemma show_int_inj: "show_int i = show_int j \<Longrightarrow> i = j"
proof -
  assume e: "show_int i = show_int j"
  have hd: "\<And>n. hd (show_nat n) \<noteq> CHR ''-''"
    using show_nat_no_minus show_nat_nonempty by (metis hd_in_set)
  show "i = j"
  proof (cases "i < 0")
    case i: True
    show ?thesis
    proof (cases "j < 0")
      case True
      with i e have "show_nat (nat (- i)) = show_nat (nat (- j))" by (simp add: show_int_def)
      then have "nat (- i) = nat (- j)" by (rule show_nat_inj)
      with i True show ?thesis by simp
    next
      case False
      with i e have "CHR ''-'' # show_nat (nat (- i)) = show_nat (nat j)" by (simp add: show_int_def)
      then have "hd (show_nat (nat j)) = CHR ''-''" by (metis list.sel(1))
      with hd show ?thesis by blast
    qed
  next
    case i: False
    show ?thesis
    proof (cases "j < 0")
      case True
      with i e have "CHR ''-'' # show_nat (nat (- j)) = show_nat (nat i)" by (simp add: show_int_def)
      then have "hd (show_nat (nat i)) = CHR ''-''" by (metis list.sel(1))
      with hd show ?thesis by blast
    next
      case False
      with i e have "show_nat (nat i) = show_nat (nat j)" by (simp add: show_int_def)
      then have "nat i = nat j" by (rule show_nat_inj)
      with i False show ?thesis by simp
    qed
  qed
qed

lemma show_int_chars: "set (show_int i) \<subseteq> set ''-0123456789''"
proof -
  have "set ''0123456789'' \<subseteq> set ''-0123456789''" by simp
  with show_nat_digits have "\<And>n. set (show_nat n) \<subseteq> set ''-0123456789''" by blast
  then show ?thesis by (simp add: show_int_def)
qed

lemma show_int_no_newline: "CHR ''\<newline>'' \<notin> set (show_int i)"
  using show_int_chars [of i] by auto

lemma show_int_sint_inj: "show_int (sint (p :: c_int)) = show_int (sint q) \<Longrightarrow> p = q"
  by (drule show_int_inj) (rule signed_word_eqI)

section \<open>The format strings\<close>

lemma format_rect:
  "format ''Drawing Rect with perimeter: %d\<newline>'' [p] = rect_line p"
  by (simp add: rect_line_def)

lemma format_circle:
  "format ''Drawing Circle with radius: %d\<newline>'' [r] = circle_line r"
  by (simp add: circle_line_def)

section \<open>Constructors and dispatch, one call at a time\<close>

lemma malloc_ok:
  "0 < heap_avail s \<Longrightarrow>
   malloc s = (Ptr (brk s), s\<lparr>brk := Suc (brk s), heap_avail := heap_avail s - 1\<rparr>)"
  by (simp add: malloc_def)

lemma malloc_fail: "heap_avail s = 0 \<Longrightarrow> malloc s = (NULL, s)"
  by (simp add: malloc_def)

lemma rect_new_ok:
  "0 < heap_avail s \<Longrightarrow>
   rect_new p s =
     Inr (Ptr (brk s),
          s\<lparr>brk := Suc (brk s), heap_avail := heap_avail s - 1,
            heap := (heap s)(brk s \<mapsto>
              Rect_obj \<lparr>Rect.base = \<lparr>vtable = rect_vtable s\<rparr>, perimeter = p\<rparr>)\<rparr>)"
  by (simp add: rect_new_def malloc_ok)

lemma circle_new_ok:
  "0 < heap_avail s \<Longrightarrow>
   circle_new r s =
     Inr (Ptr (brk s),
          s\<lparr>brk := Suc (brk s), heap_avail := heap_avail s - 1,
            heap := (heap s)(brk s \<mapsto>
              Circle_obj \<lparr>Circle.base = \<lparr>vtable = circle_vtable s\<rparr>, radius = r\<rparr>)\<rparr>)"
  by (simp add: circle_new_def malloc_ok)

lemma rect_new_fail: "heap_avail s = 0 \<Longrightarrow> rect_new p s = Inl Null_deref"
  by (simp add: rect_new_def malloc_fail)

lemma circle_new_fail: "heap_avail s = 0 \<Longrightarrow> circle_new r s = Inl Null_deref"
  by (simp add: circle_new_def malloc_fail)

lemma draw_rect_ok:
  "heap s a = Some (Rect_obj rect) \<Longrightarrow>
   draw_rect (Ptr a) s = Inr (s\<lparr>stdout := stdout s @ rect_line (perimeter rect)\<rparr>)"
  by (simp add: draw_rect_def printf_def format_rect del: format.simps)

lemma draw_circle_ok:
  "heap s a = Some (Circle_obj circle) \<Longrightarrow>
   draw_circle (Ptr a) s = Inr (s\<lparr>stdout := stdout s @ circle_line (radius circle)\<rparr>)"
  by (simp add: draw_circle_def printf_def format_circle del: format.simps)

lemma call_stuff_rect:
  "heap s a = Some (Rect_obj rect) \<Longrightarrow> draw (vtable (Rect.base rect)) = Fn_draw_rect \<Longrightarrow>
   call_stuff (Ptr a) s = Inr (s\<lparr>stdout := stdout s @ rect_line (perimeter rect)\<rparr>)"
  by (simp add: call_stuff_def draw_rect_ok)

lemma call_stuff_circle:
  "heap s a = Some (Circle_obj circle) \<Longrightarrow> draw (vtable (Circle.base circle)) = Fn_draw_circle \<Longrightarrow>
   call_stuff (Ptr a) s = Inr (s\<lparr>stdout := stdout s @ circle_line (radius circle)\<rparr>)"
  by (simp add: call_stuff_def draw_circle_ok)

lemma show_int_10: "show_int (sint (10 :: c_int)) = ''10''"
  by (simp add: show_int_def show_nat.simps digit_char_def)

lemma show_int_8: "show_int (sint (8 :: c_int)) = ''8''"
  by (simp add: show_int_def show_nat.simps digit_char_def)

section \<open>The two variants\<close>

text \<open>
  C2: for every \<open>int\<close> value \<open>p\<close>, constructing a rectangle with \<open>rect_new p\<close>
  (the allocation succeeding) and drawing it through \<open>call_stuff\<close> appends exactly
  the one line \<open>Drawing Rect with perimeter: \<close> followed by the signed decimal rendering
  of \<open>p\<close> and a newline. The line is a single line, and the rendering identifies \<open>p\<close>:
  no other value prints the same digits.
\<close>

theorem rect_new_then_draw:
  assumes "statics_initial s" and "0 < heap_avail s"
  shows "\<exists>fig s1. rect_new p s = Inr (fig, s1) \<and> stdout s1 = stdout s \<and>
           call_stuff fig s1 =
             Inr (s1\<lparr>stdout := stdout s @
                    ''Drawing Rect with perimeter: '' @ show_int (sint p) @ ''\<newline>''\<rparr>) \<and>
           CHR ''\<newline>'' \<notin> set (''Drawing Rect with perimeter: '' @ show_int (sint p)) \<and>
           (\<forall>q. show_int (sint q) = show_int (sint p) \<longrightarrow> q = p)"
proof -
  let ?s1 = "s\<lparr>brk := Suc (brk s), heap_avail := heap_avail s - 1,
      heap := (heap s)(brk s \<mapsto>
        Rect_obj \<lparr>Rect.base = \<lparr>vtable = rect_vtable s\<rparr>, perimeter = p\<rparr>)\<rparr>"
  from assms(2) have new: "rect_new p s = Inr (Ptr (brk s), ?s1)"
    by (rule rect_new_ok)
  from assms(1) have "draw (rect_vtable s) = Fn_draw_rect"
    by (simp add: statics_initial_def rect_vtable_init_def)
  then have "call_stuff (Ptr (brk s)) ?s1 = Inr (?s1\<lparr>stdout := stdout ?s1 @ rect_line p\<rparr>)"
    using call_stuff_rect [of ?s1 "brk s" "\<lparr>Rect.base = \<lparr>vtable = rect_vtable s\<rparr>, perimeter = p\<rparr>"]
    by simp
  then have call: "call_stuff (Ptr (brk s)) ?s1 =
      Inr (?s1\<lparr>stdout := stdout s @
        ''Drawing Rect with perimeter: '' @ show_int (sint p) @ ''\<newline>''\<rparr>)"
    by (simp add: rect_line_def)
  have nl: "CHR ''\<newline>'' \<notin> set (''Drawing Rect with perimeter: '' @ show_int (sint p))"
    using show_int_no_newline [of "sint p"] by simp
  have inj: "\<forall>q. show_int (sint q) = show_int (sint p) \<longrightarrow> q = p"
    by (blast dest: show_int_sint_inj)
  from new call nl inj show ?thesis by simp
qed

theorem rect_new_then_draw_witness:
  "statics_initial (program_start 1) \<and> 0 < heap_avail (program_start 1) \<and>
   (\<exists>fig s1. rect_new 10 (program_start 1) = Inr (fig, s1) \<and>
      call_stuff fig s1 = Inr (s1\<lparr>stdout := ''Drawing Rect with perimeter: 10\<newline>''\<rparr>))"
proof -
  have a: "statics_initial (program_start 1)"
    by (simp add: statics_initial_def program_start_def)
  have b: "0 < heap_avail (program_start 1)"
    by (simp add: program_start_def)
  have c: "stdout (program_start 1) = []"
    by (simp add: program_start_def)
  from rect_new_then_draw [OF a b, of 10] a b show ?thesis
    unfolding c show_int_10 by auto
qed

text \<open>
  C3: for every \<open>int\<close> value \<open>r\<close>, constructing a circle with \<open>circle_new r\<close>
  (the allocation succeeding) and drawing it through \<open>call_stuff\<close> appends exactly
  the one line \<open>Drawing Circle with radius: \<close> followed by the signed decimal rendering
  of \<open>r\<close> and a newline. The line is a single line, and the rendering identifies \<open>r\<close>:
  no other value prints the same digits.
\<close>

theorem circle_new_then_draw:
  assumes "statics_initial s" and "0 < heap_avail s"
  shows "\<exists>fig s1. circle_new r s = Inr (fig, s1) \<and> stdout s1 = stdout s \<and>
           call_stuff fig s1 =
             Inr (s1\<lparr>stdout := stdout s @
                    ''Drawing Circle with radius: '' @ show_int (sint r) @ ''\<newline>''\<rparr>) \<and>
           CHR ''\<newline>'' \<notin> set (''Drawing Circle with radius: '' @ show_int (sint r)) \<and>
           (\<forall>q. show_int (sint q) = show_int (sint r) \<longrightarrow> q = r)"
proof -
  let ?s1 = "s\<lparr>brk := Suc (brk s), heap_avail := heap_avail s - 1,
      heap := (heap s)(brk s \<mapsto>
        Circle_obj \<lparr>Circle.base = \<lparr>vtable = circle_vtable s\<rparr>, radius = r\<rparr>)\<rparr>"
  from assms(2) have new: "circle_new r s = Inr (Ptr (brk s), ?s1)"
    by (rule circle_new_ok)
  from assms(1) have "draw (circle_vtable s) = Fn_draw_circle"
    by (simp add: statics_initial_def circle_vtable_init_def)
  then have "call_stuff (Ptr (brk s)) ?s1 = Inr (?s1\<lparr>stdout := stdout ?s1 @ circle_line r\<rparr>)"
    using call_stuff_circle [of ?s1 "brk s" "\<lparr>Circle.base = \<lparr>vtable = circle_vtable s\<rparr>, radius = r\<rparr>"]
    by simp
  then have call: "call_stuff (Ptr (brk s)) ?s1 =
      Inr (?s1\<lparr>stdout := stdout s @
        ''Drawing Circle with radius: '' @ show_int (sint r) @ ''\<newline>''\<rparr>)"
    by (simp add: circle_line_def)
  have nl: "CHR ''\<newline>'' \<notin> set (''Drawing Circle with radius: '' @ show_int (sint r))"
    using show_int_no_newline [of "sint r"] by simp
  have inj: "\<forall>q. show_int (sint q) = show_int (sint r) \<longrightarrow> q = r"
    by (blast dest: show_int_sint_inj)
  from new call nl inj show ?thesis by simp
qed

theorem circle_new_then_draw_witness:
  "statics_initial (program_start 1) \<and> 0 < heap_avail (program_start 1) \<and>
   (\<exists>fig s1. circle_new 8 (program_start 1) = Inr (fig, s1) \<and>
      call_stuff fig s1 = Inr (s1\<lparr>stdout := ''Drawing Circle with radius: 8\<newline>''\<rparr>))"
proof -
  have a: "statics_initial (program_start 1)"
    by (simp add: statics_initial_def program_start_def)
  have b: "0 < heap_avail (program_start 1)"
    by (simp add: program_start_def)
  have c: "stdout (program_start 1) = []"
    by (simp add: program_start_def)
  from circle_new_then_draw [OF a b, of 8] a b show ?thesis
    unfolding c show_int_8 by auto
qed

section \<open>The driver\<close>

lemma show_int_num_10: "show_int 10 = ''10''"
  by (simp add: show_int_def show_nat.simps digit_char_def)

lemma show_int_num_8: "show_int 8 = ''8''"
  by (simp add: show_int_def show_nat.simps digit_char_def)

lemma rect_line_10: "rect_line 10 = ''Drawing Rect with perimeter: 10\<newline>''"
  by (simp add: rect_line_def show_int_num_10)

lemma circle_line_8: "circle_line 8 = ''Drawing Circle with radius: 8\<newline>''"
  by (simp add: circle_line_def show_int_num_8)

lemma main_run:
  assumes "2 \<le> cap"
  shows "main (program_start cap) =
    Inr (0, \<lparr>rect_vtable = rect_vtable_init, circle_vtable = circle_vtable_init,
             heap = [0 \<mapsto> Rect_obj \<lparr>Rect.base = \<lparr>vtable = rect_vtable_init\<rparr>, perimeter = 10\<rparr>,
                     1 \<mapsto> Circle_obj \<lparr>Circle.base = \<lparr>vtable = circle_vtable_init\<rparr>, radius = 8\<rparr>],
             brk = 2, heap_avail = cap - 2,
             stdout = ''Drawing Rect with perimeter: 10\<newline>Drawing Circle with radius: 8\<newline>''\<rparr>)"
proof -
  let ?r = "\<lparr>Rect.base = \<lparr>vtable = rect_vtable_init\<rparr>, perimeter = 10\<rparr>"
  let ?c = "\<lparr>Circle.base = \<lparr>vtable = circle_vtable_init\<rparr>, radius = 8\<rparr>"
  let ?s1 = "\<lparr>rect_vtable = rect_vtable_init, circle_vtable = circle_vtable_init,
             heap = [0 \<mapsto> Rect_obj ?r], brk = 1, heap_avail = cap - 1, stdout = []\<rparr>"
  let ?s2 = "?s1\<lparr>stdout := ''Drawing Rect with perimeter: 10\<newline>''\<rparr>"
  let ?s3 = "\<lparr>rect_vtable = rect_vtable_init, circle_vtable = circle_vtable_init,
             heap = [0 \<mapsto> Rect_obj ?r, 1 \<mapsto> Circle_obj ?c], brk = 2, heap_avail = cap - 2,
             stdout = ''Drawing Rect with perimeter: 10\<newline>''\<rparr>"
  let ?s4 = "?s3\<lparr>stdout := ''Drawing Rect with perimeter: 10\<newline>Drawing Circle with radius: 8\<newline>''\<rparr>"
  from assms have "0 < heap_avail (program_start cap)" by (simp add: program_start_def)
  then have 1: "rect_new 10 (program_start cap) = Inr (Ptr 0, ?s1)"
    by (simp add: rect_new_ok) (simp add: program_start_def)
  have 2: "call_stuff (Ptr 0) ?s1 = Inr ?s2"
    using call_stuff_rect [of ?s1 0 ?r] by (simp add: rect_vtable_init_def rect_line_10)
  from assms have "0 < heap_avail ?s2" by simp
  then have 3: "circle_new 8 ?s2 = Inr (Ptr 1, ?s3)"
    by (simp add: circle_new_ok)
  have 4: "call_stuff (Ptr 1) ?s3 = Inr ?s4"
    using call_stuff_circle [of ?s3 1 ?c] by (simp add: circle_vtable_init_def circle_line_8)
  show ?thesis
    by (simp only: main_def 1 2 3 4 sum.case prod.case) simp
qed

lemma main_alloc_fail_first: "main (program_start 0) = Inl Null_deref"
  by (simp add: main_def rect_new_fail program_start_def)

text \<open>
  C4: entered in the start state with an allocator that can serve the two requests,
  \<open>main\<close> returns 0 and has written exactly two lines to standard output, in
  construction order: \<open>Drawing Rect with perimeter: 10\<close> and then
  \<open>Drawing Circle with radius: 8\<close>.
\<close>

theorem main_two_lines_exit_0:
  assumes "2 \<le> cap"
  shows "\<exists>s'. main (program_start cap) = Inr (0, s') \<and>
           stdout s' =
             ''Drawing Rect with perimeter: 10\<newline>Drawing Circle with radius: 8\<newline>'' \<and>
           length (filter (\<lambda>c. c = CHR ''\<newline>'') (stdout s')) = 2"
  unfolding main_run [OF assms] by simp

theorem main_two_lines_exit_0_witness:
  "(2::nat) \<le> 2 \<and>
   (\<exists>s'. main (program_start 2) = Inr (0, s') \<and>
      stdout s' = ''Drawing Rect with perimeter: 10\<newline>Drawing Circle with radius: 8\<newline>'')"
  using main_two_lines_exit_0 [of 2] by auto

section \<open>Dispatch over heterogeneous sequences\<close>

lemma construct_ok:
  assumes "statics_initial s" and "0 < heap_avail s"
  shows "construct x s =
     Inr (Ptr (brk s),
          s\<lparr>brk := Suc (brk s), heap_avail := heap_avail s - 1,
            heap := (heap s)(brk s \<mapsto> object_of x)\<rparr>)"
proof (cases x)
  case (A_rect p)
  with assms show ?thesis by (simp add: rect_new_ok statics_initial_def)
next
  case (A_circle r)
  with assms show ?thesis by (simp add: circle_new_ok statics_initial_def)
qed

lemma call_stuff_object_of:
  assumes "heap s a = Some (object_of x)"
  shows "call_stuff (Ptr a) s = Inr (s\<lparr>stdout := stdout s @ expected_line x\<rparr>)"
proof (cases x)
  case (A_rect p)
  with assms show ?thesis
    using call_stuff_rect [of s a "\<lparr>Rect.base = \<lparr>vtable = rect_vtable_init\<rparr>, perimeter = p\<rparr>"]
    by (simp add: rect_vtable_init_def)
next
  case (A_circle r)
  with assms show ?thesis
    using call_stuff_circle [of s a "\<lparr>Circle.base = \<lparr>vtable = circle_vtable_init\<rparr>, radius = r\<rparr>"]
    by (simp add: circle_vtable_init_def)
qed

lemma call_stuff_variant_draw:
  assumes "heap s a = Some (object_of x)"
  shows "call_stuff (Ptr a) s = variant_draw x (Ptr a) s"
proof (cases x)
  case (A_rect p)
  with assms show ?thesis by (simp add: call_stuff_def rect_vtable_init_def)
next
  case (A_circle r)
  with assms show ?thesis by (simp add: call_stuff_def circle_vtable_init_def)
qed

lemma construct_all_ok:
  "statics_initial s \<Longrightarrow> length xs \<le> heap_avail s \<Longrightarrow>
   \<exists>s1. construct_all xs s = Inr (map Ptr [brk s..<brk s + length xs], s1) \<and>
      stdout s1 = stdout s \<and> statics_initial s1 \<and>
      brk s1 = brk s + length xs \<and> heap_avail s1 = heap_avail s - length xs \<and>
      (\<forall>i<length xs. heap s1 (brk s + i) = Some (object_of (xs ! i))) \<and>
      (\<forall>a<brk s. heap s1 a = heap s a)"
proof (induction xs arbitrary: s)
  case Nil
  then show ?case by simp
next
  case (Cons x xs)
  let ?s' = "s\<lparr>brk := Suc (brk s), heap_avail := heap_avail s - 1,
            heap := (heap s)(brk s \<mapsto> object_of x)\<rparr>"
  from Cons.prems have c: "construct x s = Inr (Ptr (brk s), ?s')"
    by (intro construct_ok) simp_all
  from Cons.prems have "statics_initial ?s'" and "length xs \<le> heap_avail ?s'"
    by (simp_all add: statics_initial_def)
  from Cons.IH [OF this] obtain s1 where
    all: "construct_all xs ?s' = Inr (map Ptr [Suc (brk s)..<Suc (brk s) + length xs], s1)"
    and out: "stdout s1 = stdout s" and st: "statics_initial s1"
    and b: "brk s1 = Suc (brk s) + length xs"
    and av: "heap_avail s1 = heap_avail s - 1 - length xs"
    and new: "\<forall>i<length xs. heap s1 (Suc (brk s) + i) = Some (object_of (xs ! i))"
    and old: "\<forall>a<Suc (brk s). heap s1 a = heap ?s' a"
    by auto
  have upt: "[brk s..<brk s + length (x # xs)] = brk s # [Suc (brk s)..<Suc (brk s) + length xs]"
    by (subst upt_rec) simp
  have "construct_all (x # xs) s =
      Inr (map Ptr (brk s # [Suc (brk s)..<Suc (brk s) + length xs]), s1)"
    by (simp only: construct_all.simps c all sum.case prod.case list.map)
  then have 1: "construct_all (x # xs) s = Inr (map Ptr [brk s..<brk s + length (x # xs)], s1)"
    unfolding upt .
  have 2: "\<forall>i<length (x # xs). heap s1 (brk s + i) = Some (object_of ((x # xs) ! i))"
  proof (intro allI impI)
    fix i assume i: "i < length (x # xs)"
    show "heap s1 (brk s + i) = Some (object_of ((x # xs) ! i))"
    proof (cases i)
      case 0
      with old show ?thesis by simp
    next
      case (Suc j)
      with i new show ?thesis by simp
    qed
  qed
  have 3: "\<forall>a<brk s. heap s1 a = heap s a"
    using old by simp
  from 1 2 3 out st b av show ?case by simp
qed

lemma draw_all_ok:
  "length as = length xs \<Longrightarrow>
   (\<forall>i<length xs. heap s (as ! i) = Some (object_of (xs ! i))) \<Longrightarrow>
   draw_all (map Ptr as) s = Inr (s\<lparr>stdout := stdout s @ concat (map expected_line xs)\<rparr>)"
proof (induction as xs arbitrary: s rule: list_induct2)
  case Nil
  then show ?case by simp
next
  case (Cons a as x xs)
  let ?s' = "s\<lparr>stdout := stdout s @ expected_line x\<rparr>"
  from Cons.prems have "heap s a = Some (object_of x)" by auto
  then have c: "call_stuff (Ptr a) s = Inr ?s'" by (rule call_stuff_object_of)
  from Cons.prems have "\<forall>i<length xs. heap ?s' (as ! i) = Some (object_of (xs ! i))"
    by auto
  from Cons.IH [OF this] c show ?case by simp
qed

lemma rect_line_neq_circle_line: "rect_line p \<noteq> circle_line r"
  by (simp add: rect_line_def circle_line_def)

text \<open>
  C1: for every heterogeneous sequence of shapes built by \<open>rect_new\<close> and
  \<open>circle_new\<close> (the statics holding their initialisers, the allocations succeeding),
  \<open>call_stuff\<close> on the \<open>i\<close>-th \<open>Figure*\<close> runs exactly the draw function of the
  \<open>i\<close>-th element's own variant and appends that variant's line; drawing the whole
  sequence appends the expected lines element for element, in order; and no rectangle
  line is ever equal to a circle line.
\<close>

theorem dispatch_matches_variants:
  assumes "statics_initial s" and "length xs \<le> heap_avail s"
  shows "\<exists>figs s1. construct_all xs s = Inr (figs, s1) \<and> length figs = length xs \<and>
     (\<forall>i<length xs.
        call_stuff (figs ! i) s1 = variant_draw (xs ! i) (figs ! i) s1 \<and>
        call_stuff (figs ! i) s1 = Inr (s1\<lparr>stdout := stdout s1 @ expected_line (xs ! i)\<rparr>)) \<and>
     draw_all figs s1 = Inr (s1\<lparr>stdout := stdout s @ concat (map expected_line xs)\<rparr>) \<and>
     (\<forall>p r. rect_line p \<noteq> circle_line r)"
proof -
  let ?as = "[brk s..<brk s + length xs]"
  from construct_all_ok [OF assms] obtain s1 where
    all: "construct_all xs s = Inr (map Ptr ?as, s1)"
    and out: "stdout s1 = stdout s"
    and new: "\<forall>i<length xs. heap s1 (brk s + i) = Some (object_of (xs ! i))"
    by blast
  have cells: "\<forall>i<length xs. heap s1 (?as ! i) = Some (object_of (xs ! i))"
    using new by simp
  have each: "\<forall>i<length xs.
      call_stuff (map Ptr ?as ! i) s1 = variant_draw (xs ! i) (map Ptr ?as ! i) s1 \<and>
      call_stuff (map Ptr ?as ! i) s1 = Inr (s1\<lparr>stdout := stdout s1 @ expected_line (xs ! i)\<rparr>)"
  proof (intro allI impI)
    fix i assume "i < length xs"
    with new have "heap s1 (brk s + i) = Some (object_of (xs ! i))" by blast
    from call_stuff_variant_draw [OF this] call_stuff_object_of [OF this] \<open>i < length xs\<close>
    show "call_stuff (map Ptr ?as ! i) s1 = variant_draw (xs ! i) (map Ptr ?as ! i) s1 \<and>
      call_stuff (map Ptr ?as ! i) s1 = Inr (s1\<lparr>stdout := stdout s1 @ expected_line (xs ! i)\<rparr>)"
      by simp
  qed
  have "draw_all (map Ptr ?as) s1 = Inr (s1\<lparr>stdout := stdout s1 @ concat (map expected_line xs)\<rparr>)"
    using cells by (intro draw_all_ok) simp_all
  with out have seq: "draw_all (map Ptr ?as) s1 =
      Inr (s1\<lparr>stdout := stdout s @ concat (map expected_line xs)\<rparr>)"
    by simp
  have len: "length (map Ptr ?as) = length xs" by simp
  have neq: "\<forall>p r. rect_line p \<noteq> circle_line r"
    by (simp add: rect_line_neq_circle_line)
  from all len each seq neq show ?thesis by blast
qed

lemma show_int_num_neg_3: "show_int (- 3) = ''-3''"
  by (simp add: show_int_def show_nat.simps digit_char_def)

theorem dispatch_matches_variants_witness:
  "statics_initial (program_start 3) \<and>
   length [A_rect 10, A_circle 8, A_rect (- 3)] \<le> heap_avail (program_start 3) \<and>
   (\<exists>figs s1. construct_all [A_rect 10, A_circle 8, A_rect (- 3)] (program_start 3) = Inr (figs, s1) \<and>
      draw_all figs s1 =
        Inr (s1\<lparr>stdout := ''Drawing Rect with perimeter: 10\<newline>Drawing Circle with radius: 8\<newline>Drawing Rect with perimeter: -3\<newline>''\<rparr>))"
proof -
  have a: "statics_initial (program_start 3)"
    by (simp add: statics_initial_def program_start_def)
  have b: "length [A_rect 10, A_circle 8, A_rect (- 3)] \<le> heap_avail (program_start 3)"
    by (simp add: program_start_def)
  have c: "stdout (program_start 3) = []"
    by (simp add: program_start_def)
  have d: "concat (map expected_line [A_rect 10, A_circle 8, A_rect (- 3)]) =
      ''Drawing Rect with perimeter: 10\<newline>Drawing Circle with radius: 8\<newline>Drawing Rect with perimeter: -3\<newline>''"
    by (simp add: rect_line_def circle_line_def show_int_num_10 show_int_num_8 show_int_num_neg_3)
  from dispatch_matches_variants [OF a b] a b show ?thesis
    unfolding c d by auto
qed

section \<open>Runs of the program and the pairing invariant\<close>

lemma rect_new_Inr:
  assumes "rect_new p s = Inr (fig, s1)"
  shows "0 < heap_avail s \<and> fig = Ptr (brk s) \<and>
     s1 = s\<lparr>brk := Suc (brk s), heap_avail := heap_avail s - 1,
            heap := (heap s)(brk s \<mapsto>
              Rect_obj \<lparr>Rect.base = \<lparr>vtable = rect_vtable s\<rparr>, perimeter = p\<rparr>)\<rparr>"
proof (cases "heap_avail s = 0")
  case True
  with assms show ?thesis by (simp add: rect_new_fail)
next
  case False
  then have "0 < heap_avail s" by simp
  from rect_new_ok [OF this, of p] assms this show ?thesis by simp
qed

lemma circle_new_Inr:
  assumes "circle_new r s = Inr (fig, s1)"
  shows "0 < heap_avail s \<and> fig = Ptr (brk s) \<and>
     s1 = s\<lparr>brk := Suc (brk s), heap_avail := heap_avail s - 1,
            heap := (heap s)(brk s \<mapsto>
              Circle_obj \<lparr>Circle.base = \<lparr>vtable = circle_vtable s\<rparr>, radius = r\<rparr>)\<rparr>"
proof (cases "heap_avail s = 0")
  case True
  with assms show ?thesis by (simp add: circle_new_fail)
next
  case False
  then have "0 < heap_avail s" by simp
  from circle_new_ok [OF this, of r] assms this show ?thesis by simp
qed

lemma draw_rect_Inr:
  "draw_rect fig s = Inr s1 \<Longrightarrow> \<exists>line. s1 = s\<lparr>stdout := stdout s @ line\<rparr>"
  by (auto simp: draw_rect_def printf_def split: ptr.splits option.splits object.splits)

lemma draw_circle_Inr:
  "draw_circle fig s = Inr s1 \<Longrightarrow> \<exists>line. s1 = s\<lparr>stdout := stdout s @ line\<rparr>"
  by (auto simp: draw_circle_def printf_def split: ptr.splits option.splits object.splits)

lemma call_stuff_Inr:
  assumes "call_stuff fig s = Inr s1"
  shows "\<exists>line. s1 = s\<lparr>stdout := stdout s @ line\<rparr>"
proof (cases fig)
  case NULL
  with assms show ?thesis by (simp add: call_stuff_def)
next
  case (Ptr a)
  show ?thesis
  proof (cases "heap s a")
    case None
    with Ptr assms show ?thesis by (simp add: call_stuff_def)
  next
    case (Some obj)
    show ?thesis
    proof (cases "draw (vtable (figure_of obj))")
      case Fn_draw_rect
      with Ptr Some assms have "draw_rect fig s = Inr s1" by (simp add: call_stuff_def)
      then show ?thesis by (rule draw_rect_Inr)
    next
      case Fn_draw_circle
      with Ptr Some assms have "draw_circle fig s = Inr s1" by (simp add: call_stuff_def)
      then show ?thesis by (rule draw_circle_Inr)
    qed
  qed
qed

lemma run_inv_stdout: "run_inv (s\<lparr>stdout := out\<rparr>) = run_inv s"
  by (simp add: run_inv_def statics_initial_def)

lemma run_inv_start: "run_inv (program_start cap)"
  by (simp add: run_inv_def statics_initial_def program_start_def)

lemma run_inv_rect_new:
  assumes "run_inv s" and "rect_new p s = Inr (fig, s1)"
  shows "run_inv s1"
proof -
  from rect_new_Inr [OF assms(2)] have
    s1: "s1 = s\<lparr>brk := Suc (brk s), heap_avail := heap_avail s - 1,
            heap := (heap s)(brk s \<mapsto>
              Rect_obj \<lparr>Rect.base = \<lparr>vtable = rect_vtable s\<rparr>, perimeter = p\<rparr>)\<rparr>"
    by simp
  from assms(1) show ?thesis
    unfolding s1 by (simp add: run_inv_def statics_initial_def rect_vtable_init_def)
qed

lemma run_inv_circle_new:
  assumes "run_inv s" and "circle_new r s = Inr (fig, s1)"
  shows "run_inv s1"
proof -
  from circle_new_Inr [OF assms(2)] have
    s1: "s1 = s\<lparr>brk := Suc (brk s), heap_avail := heap_avail s - 1,
            heap := (heap s)(brk s \<mapsto>
              Circle_obj \<lparr>Circle.base = \<lparr>vtable = circle_vtable s\<rparr>, radius = r\<rparr>)\<rparr>"
    by simp
  from assms(1) show ?thesis
    unfolding s1 by (simp add: run_inv_def statics_initial_def circle_vtable_init_def)
qed

lemma keeps_rect_new:
  assumes "run_inv s" and "rect_new p s = Inr (fig, s1)" and "heap s a = Some obj"
  shows "heap s1 a = Some obj"
proof -
  from assms(1,3) have "a \<noteq> brk s" by (auto simp: run_inv_def)
  with rect_new_Inr [OF assms(2)] assms(3) show ?thesis by simp
qed

lemma keeps_circle_new:
  assumes "run_inv s" and "circle_new r s = Inr (fig, s1)" and "heap s a = Some obj"
  shows "heap s1 a = Some obj"
proof -
  from assms(1,3) have "a \<noteq> brk s" by (auto simp: run_inv_def)
  with circle_new_Inr [OF assms(2)] assms(3) show ?thesis by simp
qed

lemma exec_op_step:
  assumes "run_inv s" and "exec_op x s = Inr s1"
  shows "run_inv s1 \<and> (\<forall>a obj. heap s a = Some obj \<longrightarrow> heap s1 a = Some obj)"
proof (cases x)
  case (Op_rect_new p)
  with assms(2) obtain fig where "rect_new p s = Inr (fig, s1)"
    by (auto split: sum.splits)
  with assms(1) show ?thesis by (blast intro: run_inv_rect_new keeps_rect_new)
next
  case (Op_circle_new r)
  with assms(2) obtain fig where "circle_new r s = Inr (fig, s1)"
    by (auto split: sum.splits)
  with assms(1) show ?thesis by (blast intro: run_inv_circle_new keeps_circle_new)
next
  case (Op_call_stuff fig)
  with assms(2) have "call_stuff fig s = Inr s1" by simp
  then obtain line where "s1 = s\<lparr>stdout := stdout s @ line\<rparr>" by (blast dest: call_stuff_Inr)
  with assms(1) show ?thesis by (simp add: run_inv_stdout)
next
  case (Op_draw_rect fig)
  with assms(2) have "draw_rect fig s = Inr s1" by simp
  then obtain line where "s1 = s\<lparr>stdout := stdout s @ line\<rparr>" by (blast dest: draw_rect_Inr)
  with assms(1) show ?thesis by (simp add: run_inv_stdout)
next
  case (Op_draw_circle fig)
  with assms(2) have "draw_circle fig s = Inr s1" by simp
  then obtain line where "s1 = s\<lparr>stdout := stdout s @ line\<rparr>" by (blast dest: draw_circle_Inr)
  with assms(1) show ?thesis by (simp add: run_inv_stdout)
qed

lemma exec_ops_steps:
  "run_inv s \<Longrightarrow> exec_ops xs s = Inr s1 \<Longrightarrow>
   run_inv s1 \<and> (\<forall>a obj. heap s a = Some obj \<longrightarrow> heap s1 a = Some obj)"
proof (induction xs arbitrary: s)
  case Nil
  then show ?case by simp
next
  case (Cons x xs)
  from Cons.prems(2) obtain s' where x: "exec_op x s = Inr s'" and xs: "exec_ops xs s' = Inr s1"
    by (auto split: sum.splits)
  from exec_op_step [OF Cons.prems(1) x] have inv: "run_inv s'"
    and keep: "\<forall>a obj. heap s a = Some obj \<longrightarrow> heap s' a = Some obj"
    by simp_all
  from Cons.IH [OF inv xs] keep show ?case by blast
qed

lemma run_inv_reachable: "exec_ops xs (program_start cap) = Inr s \<Longrightarrow> run_inv s"
  using exec_ops_steps [OF run_inv_start] by blast

text \<open>
  C5: in every state a run of the program can reach, each live instance is paired with
  the draw function of its own variant (a \<open>Rect\<close> with \<open>draw_rect\<close>, a \<open>Circle\<close>
  with \<open>draw_circle\<close>), and no further sequence of operations changes the instance:
  the pairing holds for its whole lifetime. Every instance \<open>rect_new\<close> returns there is
  a \<open>Rect\<close> paired with \<open>draw_rect\<close>, and every instance \<open>circle_new\<close> returns is a
  \<open>Circle\<close> paired with \<open>draw_circle\<close>.
\<close>

theorem variant_paired_for_lifetime:
  assumes "exec_ops xs (program_start cap) = Inr s"
  shows "(\<forall>a obj. heap s a = Some obj \<longrightarrow>
            vtable_matches obj \<and>
            (\<forall>ys s'. exec_ops ys s = Inr s' \<longrightarrow> heap s' a = Some obj)) \<and>
         (\<forall>p fig s1. rect_new p s = Inr (fig, s1) \<longrightarrow>
            (\<exists>a rect. fig = Ptr a \<and> heap s1 a = Some (Rect_obj rect) \<and>
               draw (vtable (Rect.base rect)) = Fn_draw_rect)) \<and>
         (\<forall>r fig s1. circle_new r s = Inr (fig, s1) \<longrightarrow>
            (\<exists>a circle. fig = Ptr a \<and> heap s1 a = Some (Circle_obj circle) \<and>
               draw (vtable (Circle.base circle)) = Fn_draw_circle))"
proof -
  from assms have inv: "run_inv s" by (rule run_inv_reachable)
  have 1: "\<forall>a obj. heap s a = Some obj \<longrightarrow>
      vtable_matches obj \<and> (\<forall>ys s'. exec_ops ys s = Inr s' \<longrightarrow> heap s' a = Some obj)"
    using inv exec_ops_steps [OF inv] by (auto simp: run_inv_def)
  have 2: "\<forall>p fig s1. rect_new p s = Inr (fig, s1) \<longrightarrow>
      (\<exists>a rect. fig = Ptr a \<and> heap s1 a = Some (Rect_obj rect) \<and>
         draw (vtable (Rect.base rect)) = Fn_draw_rect)"
  proof (intro allI impI)
    fix p fig s1 assume new: "rect_new p s = Inr (fig, s1)"
    from inv have "draw (rect_vtable s) = Fn_draw_rect"
      by (simp add: run_inv_def statics_initial_def rect_vtable_init_def)
    with rect_new_Inr [OF new]
    show "\<exists>a rect. fig = Ptr a \<and> heap s1 a = Some (Rect_obj rect) \<and>
         draw (vtable (Rect.base rect)) = Fn_draw_rect"
      by simp
  qed
  have 3: "\<forall>r fig s1. circle_new r s = Inr (fig, s1) \<longrightarrow>
      (\<exists>a circle. fig = Ptr a \<and> heap s1 a = Some (Circle_obj circle) \<and>
         draw (vtable (Circle.base circle)) = Fn_draw_circle)"
  proof (intro allI impI)
    fix r fig s1 assume new: "circle_new r s = Inr (fig, s1)"
    from inv have "draw (circle_vtable s) = Fn_draw_circle"
      by (simp add: run_inv_def statics_initial_def circle_vtable_init_def)
    with circle_new_Inr [OF new]
    show "\<exists>a circle. fig = Ptr a \<and> heap s1 a = Some (Circle_obj circle) \<and>
         draw (vtable (Circle.base circle)) = Fn_draw_circle"
      by simp
  qed
  from 1 2 3 show ?thesis by blast
qed

lemma small_run:
  "exec_ops [Op_rect_new 10, Op_circle_new 8, Op_call_stuff (Ptr 1)] (program_start 2) =
     Inr \<lparr>rect_vtable = rect_vtable_init, circle_vtable = circle_vtable_init,
          heap = [0 \<mapsto> Rect_obj \<lparr>Rect.base = \<lparr>vtable = rect_vtable_init\<rparr>, perimeter = 10\<rparr>,
                  1 \<mapsto> Circle_obj \<lparr>Circle.base = \<lparr>vtable = circle_vtable_init\<rparr>, radius = 8\<rparr>],
          brk = 2, heap_avail = 0, stdout = ''Drawing Circle with radius: 8\<newline>''\<rparr>"
  by (simp add: program_start_def rect_new_ok circle_new_ok call_stuff_def circle_vtable_init_def
      draw_circle_ok circle_line_8)

theorem variant_paired_for_lifetime_witness:
  "exec_ops [Op_rect_new 10, Op_circle_new 8, Op_call_stuff (Ptr 1)] (program_start 2) =
     Inr \<lparr>rect_vtable = rect_vtable_init, circle_vtable = circle_vtable_init,
          heap = [0 \<mapsto> Rect_obj \<lparr>Rect.base = \<lparr>vtable = rect_vtable_init\<rparr>, perimeter = 10\<rparr>,
                  1 \<mapsto> Circle_obj \<lparr>Circle.base = \<lparr>vtable = circle_vtable_init\<rparr>, radius = 8\<rparr>],
          brk = 2, heap_avail = 0, stdout = ''Drawing Circle with radius: 8\<newline>''\<rparr> \<and>
   vtable_matches (Rect_obj \<lparr>Rect.base = \<lparr>vtable = rect_vtable_init\<rparr>, perimeter = 10\<rparr>) \<and>
   vtable_matches (Circle_obj \<lparr>Circle.base = \<lparr>vtable = circle_vtable_init\<rparr>, radius = 8\<rparr>)"
proof -
  let ?R = "Rect_obj \<lparr>Rect.base = \<lparr>vtable = rect_vtable_init\<rparr>, perimeter = 10\<rparr>"
  let ?C = "Circle_obj \<lparr>Circle.base = \<lparr>vtable = circle_vtable_init\<rparr>, radius = 8\<rparr>"
  let ?S = "\<lparr>rect_vtable = rect_vtable_init, circle_vtable = circle_vtable_init,
          heap = [0 \<mapsto> ?R, 1 \<mapsto> ?C],
          brk = 2, heap_avail = 0, stdout = ''Drawing Circle with radius: 8\<newline>''\<rparr>"
  have 0: "heap ?S 0 = Some ?R" by simp
  have 1: "heap ?S 1 = Some ?C" by simp
  from variant_paired_for_lifetime [OF small_run] 0 1
  have "vtable_matches ?R" and "vtable_matches ?C" by blast+
  with small_run show ?thesis by blast
qed

section \<open>Draw has no effect on the instance\<close>

lemma call_stuff_object_line:
  assumes "heap s a = Some obj" and "vtable_matches obj"
  shows "call_stuff (Ptr a) s = Inr (s\<lparr>stdout := stdout s @ object_line obj\<rparr>)"
proof (cases obj)
  case (Rect_obj rect)
  with assms show ?thesis by (simp add: call_stuff_rect)
next
  case (Circle_obj circle)
  with assms show ?thesis by (simp add: call_stuff_circle)
qed

text \<open>
  C6: drawing an instance that is paired with its own variant's draw function succeeds
  and changes nothing but standard output: the instance (its integer field and its
  vtable) is the same afterwards, so a second draw of the same instance appends the
  same line again. More generally no successful \<open>call_stuff\<close> changes the heap or the
  static vtables.
\<close>

theorem draw_leaves_instance_unchanged:
  assumes "heap s a = Some obj" and "vtable_matches obj"
  shows "\<exists>line.
           call_stuff (Ptr a) s = Inr (s\<lparr>stdout := stdout s @ line\<rparr>) \<and>
           heap (s\<lparr>stdout := stdout s @ line\<rparr>) a = Some obj \<and>
           call_stuff (Ptr a) (s\<lparr>stdout := stdout s @ line\<rparr>) =
             Inr (s\<lparr>stdout := stdout s @ line @ line\<rparr>) \<and>
           (\<forall>fig s1. call_stuff fig s = Inr s1 \<longrightarrow>
              heap s1 = heap s \<and> rect_vtable s1 = rect_vtable s \<and>
              circle_vtable s1 = circle_vtable s)"
proof -
  let ?s1 = "s\<lparr>stdout := stdout s @ object_line obj\<rparr>"
  from assms have 1: "call_stuff (Ptr a) s = Inr ?s1"
    by (rule call_stuff_object_line)
  from assms(1) have 2: "heap ?s1 a = Some obj" by simp
  from call_stuff_object_line [OF 2 assms(2)]
  have 3: "call_stuff (Ptr a) ?s1 = Inr (s\<lparr>stdout := stdout s @ object_line obj @ object_line obj\<rparr>)"
    by simp
  have 4: "\<forall>fig s1. call_stuff fig s = Inr s1 \<longrightarrow>
      heap s1 = heap s \<and> rect_vtable s1 = rect_vtable s \<and> circle_vtable s1 = circle_vtable s"
    by (auto dest: call_stuff_Inr)
  from 1 2 3 4 show ?thesis by blast
qed

theorem draw_leaves_instance_unchanged_witness:
  "heap \<lparr>rect_vtable = rect_vtable_init, circle_vtable = circle_vtable_init,
        heap = [0 \<mapsto> Rect_obj \<lparr>Rect.base = \<lparr>vtable = rect_vtable_init\<rparr>, perimeter = 10\<rparr>],
        brk = 1, heap_avail = 0, stdout = []\<rparr> 0 =
     Some (Rect_obj \<lparr>Rect.base = \<lparr>vtable = rect_vtable_init\<rparr>, perimeter = 10\<rparr>) \<and>
   vtable_matches (Rect_obj \<lparr>Rect.base = \<lparr>vtable = rect_vtable_init\<rparr>, perimeter = 10\<rparr>) \<and>
   call_stuff (Ptr 0)
       \<lparr>rect_vtable = rect_vtable_init, circle_vtable = circle_vtable_init,
        heap = [0 \<mapsto> Rect_obj \<lparr>Rect.base = \<lparr>vtable = rect_vtable_init\<rparr>, perimeter = 10\<rparr>],
        brk = 1, heap_avail = 0, stdout = []\<rparr> =
     Inr (\<lparr>rect_vtable = rect_vtable_init, circle_vtable = circle_vtable_init,
        heap = [0 \<mapsto> Rect_obj \<lparr>Rect.base = \<lparr>vtable = rect_vtable_init\<rparr>, perimeter = 10\<rparr>],
        brk = 1, heap_avail = 0, stdout = []\<rparr>
       \<lparr>stdout := ''Drawing Rect with perimeter: 10\<newline>''\<rparr>) \<and>
   call_stuff (Ptr 0)
       (\<lparr>rect_vtable = rect_vtable_init, circle_vtable = circle_vtable_init,
        heap = [0 \<mapsto> Rect_obj \<lparr>Rect.base = \<lparr>vtable = rect_vtable_init\<rparr>, perimeter = 10\<rparr>],
        brk = 1, heap_avail = 0, stdout = []\<rparr>
        \<lparr>stdout := ''Drawing Rect with perimeter: 10\<newline>''\<rparr>) =
     Inr (\<lparr>rect_vtable = rect_vtable_init, circle_vtable = circle_vtable_init,
        heap = [0 \<mapsto> Rect_obj \<lparr>Rect.base = \<lparr>vtable = rect_vtable_init\<rparr>, perimeter = 10\<rparr>],
        brk = 1, heap_avail = 0, stdout = []\<rparr>
       \<lparr>stdout := ''Drawing Rect with perimeter: 10\<newline>Drawing Rect with perimeter: 10\<newline>''\<rparr>)"
proof -
  let ?R = "Rect_obj \<lparr>Rect.base = \<lparr>vtable = rect_vtable_init\<rparr>, perimeter = 10\<rparr>"
  let ?S = "\<lparr>rect_vtable = rect_vtable_init, circle_vtable = circle_vtable_init,
        heap = [0 \<mapsto> Rect_obj \<lparr>Rect.base = \<lparr>vtable = rect_vtable_init\<rparr>, perimeter = 10\<rparr>],
        brk = 1, heap_avail = 0, stdout = []\<rparr>"
  let ?L = "''Drawing Rect with perimeter: 10\<newline>''"
  have a: "heap ?S 0 = Some ?R" by simp
  have b: "vtable_matches ?R" by (simp add: rect_vtable_init_def)
  have c: "stdout ?S = []" by simp
  have d: "call_stuff (Ptr 0) ?S = Inr (?S\<lparr>stdout := ?L\<rparr>)"
    using call_stuff_object_line [OF a b] by (simp add: rect_line_10)
  from draw_leaves_instance_unchanged [OF a b, unfolded c] obtain line where
    1: "call_stuff (Ptr 0) ?S = Inr (?S\<lparr>stdout := [] @ line\<rparr>)" and
    2: "call_stuff (Ptr 0) (?S\<lparr>stdout := [] @ line\<rparr>) = Inr (?S\<lparr>stdout := [] @ line @ line\<rparr>)"
    by blast
  from 1 d have "?S\<lparr>stdout := [] @ line\<rparr> = ?S\<lparr>stdout := ?L\<rparr>" by simp
  then have "stdout (?S\<lparr>stdout := [] @ line\<rparr>) = stdout (?S\<lparr>stdout := ?L\<rparr>)"
    by (rule arg_cong)
  then have "line = ?L" by simp
  with 2 have "call_stuff (Ptr 0) (?S\<lparr>stdout := ?L\<rparr>) = Inr (?S\<lparr>stdout := ?L @ ?L\<rparr>)"
    by simp
  then have e: "call_stuff (Ptr 0) (?S\<lparr>stdout := ?L\<rparr>) = Inr (?S\<lparr>stdout := ''Drawing Rect with perimeter: 10\<newline>Drawing Rect with perimeter: 10\<newline>''\<rparr>)"
    by simp
  from a b d e show ?thesis by (intro conjI)
qed

section \<open>Permissive constructors\<close>

lemma show_int_num_0: "show_int 0 = ''0''"
  by (simp add: show_int_def show_nat.simps digit_char_def)

lemma show_int_num_neg_5: "show_int (- 5) = ''-5''"
  by (simp add: show_int_def show_nat.simps digit_char_def)

lemma show_int_negative: "i < 0 \<Longrightarrow> show_int i = CHR ''-'' # show_nat (nat (- i))"
  by (simp add: show_int_def)

text \<open>
  C7: the constructors validate nothing. Whenever the allocation succeeds, \<open>rect_new v\<close>
  and \<open>circle_new v\<close> succeed for every \<open>int\<close> value \<open>v\<close>, store exactly \<open>v\<close> in
  the instance, and drawing the instance prints the signed decimal rendering of \<open>v\<close>:
  \<open>0\<close> for zero and a minus sign followed by the digits of the magnitude for a negative
  value.
\<close>

theorem constructors_accept_any_int:
  assumes "statics_initial s" and "0 < heap_avail s"
  shows "(\<exists>a s1. rect_new v s = Inr (Ptr a, s1) \<and>
            heap s1 a = Some (Rect_obj \<lparr>Rect.base = \<lparr>vtable = rect_vtable_init\<rparr>, perimeter = v\<rparr>) \<and>
            call_stuff (Ptr a) s1 =
              Inr (s1\<lparr>stdout := stdout s1 @
                     ''Drawing Rect with perimeter: '' @ show_int (sint v) @ ''\<newline>''\<rparr>)) \<and>
         (\<exists>a s1. circle_new v s = Inr (Ptr a, s1) \<and>
            heap s1 a = Some (Circle_obj \<lparr>Circle.base = \<lparr>vtable = circle_vtable_init\<rparr>, radius = v\<rparr>) \<and>
            call_stuff (Ptr a) s1 =
              Inr (s1\<lparr>stdout := stdout s1 @
                     ''Drawing Circle with radius: '' @ show_int (sint v) @ ''\<newline>''\<rparr>)) \<and>
         (v = 0 \<longrightarrow> show_int (sint v) = ''0'') \<and>
         (sint v < 0 \<longrightarrow> show_int (sint v) = CHR ''-'' # show_nat (nat (- sint v)))"
proof -
  let ?R = "\<lparr>Rect.base = \<lparr>vtable = rect_vtable_init\<rparr>, perimeter = v\<rparr>"
  let ?C = "\<lparr>Circle.base = \<lparr>vtable = circle_vtable_init\<rparr>, radius = v\<rparr>"
  let ?sr = "s\<lparr>brk := Suc (brk s), heap_avail := heap_avail s - 1,
      heap := (heap s)(brk s \<mapsto> Rect_obj ?R)\<rparr>"
  let ?sc = "s\<lparr>brk := Suc (brk s), heap_avail := heap_avail s - 1,
      heap := (heap s)(brk s \<mapsto> Circle_obj ?C)\<rparr>"
  from assms have r1: "rect_new v s = Inr (Ptr (brk s), ?sr)"
    by (simp add: rect_new_ok statics_initial_def)
  have r2: "heap ?sr (brk s) = Some (Rect_obj ?R)" by simp
  have r3: "call_stuff (Ptr (brk s)) ?sr =
      Inr (?sr\<lparr>stdout := stdout ?sr @
        ''Drawing Rect with perimeter: '' @ show_int (sint v) @ ''\<newline>''\<rparr>)"
    using call_stuff_rect [of ?sr "brk s" ?R]
    by (simp add: rect_vtable_init_def rect_line_def)
  from assms have c1: "circle_new v s = Inr (Ptr (brk s), ?sc)"
    by (simp add: circle_new_ok statics_initial_def)
  have c2: "heap ?sc (brk s) = Some (Circle_obj ?C)" by simp
  have c3: "call_stuff (Ptr (brk s)) ?sc =
      Inr (?sc\<lparr>stdout := stdout ?sc @
        ''Drawing Circle with radius: '' @ show_int (sint v) @ ''\<newline>''\<rparr>)"
    using call_stuff_circle [of ?sc "brk s" ?C]
    by (simp add: circle_vtable_init_def circle_line_def)
  have z: "v = 0 \<longrightarrow> show_int (sint v) = ''0''"
    by (simp add: show_int_num_0)
  have n: "sint v < 0 \<longrightarrow> show_int (sint v) = CHR ''-'' # show_nat (nat (- sint v))"
    by (simp add: show_int_negative)
  from r1 r2 r3 c1 c2 c3 z n show ?thesis by blast
qed

theorem constructors_accept_any_int_witness:
  "statics_initial (program_start 1) \<and> 0 < heap_avail (program_start 1) \<and>
   (\<exists>a s1. rect_new (- 5) (program_start 1) = Inr (Ptr a, s1) \<and>
      call_stuff (Ptr a) s1 =
        Inr (s1\<lparr>stdout := stdout s1 @ ''Drawing Rect with perimeter: -5\<newline>''\<rparr>)) \<and>
   (\<exists>a s1. circle_new 0 (program_start 1) = Inr (Ptr a, s1) \<and>
      call_stuff (Ptr a) s1 =
        Inr (s1\<lparr>stdout := stdout s1 @ ''Drawing Circle with radius: 0\<newline>''\<rparr>))"
proof -
  have a: "statics_initial (program_start 1)"
    by (simp add: statics_initial_def program_start_def)
  have b: "0 < heap_avail (program_start 1)"
    by (simp add: program_start_def)
  have m: "show_int (sint (- 5 :: c_int)) = ''-5''"
    by (simp add: show_int_num_neg_5)
  have z: "show_int (sint (0 :: c_int)) = ''0''"
    by (simp add: show_int_num_0)
  from constructors_accept_any_int [OF a b, of "- 5"]
  have 1: "\<exists>a s1. rect_new (- 5) (program_start 1) = Inr (Ptr a, s1) \<and>
      call_stuff (Ptr a) s1 =
        Inr (s1\<lparr>stdout := stdout s1 @ ''Drawing Rect with perimeter: -5\<newline>''\<rparr>)"
    unfolding m by auto
  from constructors_accept_any_int [OF a b, of 0]
  have 2: "\<exists>a s1. circle_new 0 (program_start 1) = Inr (Ptr a, s1) \<and>
      call_stuff (Ptr a) s1 =
        Inr (s1\<lparr>stdout := stdout s1 @ ''Drawing Circle with radius: 0\<newline>''\<rparr>)"
    unfolding z by auto
  from a b 1 2 show ?thesis by (intro conjI)
qed

section \<open>The vtable is held by value\<close>

lemma draw_rect_set_statics:
  "draw_rect fig (set_statics v w s) = map_sum id (set_statics v w) (draw_rect fig s)"
  by (simp add: draw_rect_def set_statics_def printf_def
      split: ptr.splits option.splits object.splits)

lemma draw_circle_set_statics:
  "draw_circle fig (set_statics v w s) = map_sum id (set_statics v w) (draw_circle fig s)"
  by (simp add: draw_circle_def set_statics_def printf_def
      split: ptr.splits option.splits object.splits)

lemma heap_set_statics: "heap (set_statics v w s) = heap s"
  by (simp add: set_statics_def)

lemma call_stuff_set_statics:
  "call_stuff fig (set_statics v w s) = map_sum id (set_statics v w) (call_stuff fig s)"
proof (cases fig)
  case NULL
  then show ?thesis by (simp add: call_stuff_def)
next
  case (Ptr a)
  show ?thesis
  proof (cases "heap s a")
    case None
    with Ptr show ?thesis by (simp add: call_stuff_def heap_set_statics)
  next
    case (Some obj)
    show ?thesis
    proof (cases "draw (vtable (figure_of obj))")
      case Fn_draw_rect
      with Ptr Some show ?thesis
        by (simp add: call_stuff_def heap_set_statics draw_rect_set_statics)
    next
      case Fn_draw_circle
      with Ptr Some show ?thesis
        by (simp add: call_stuff_def heap_set_statics draw_circle_set_statics)
    qed
  qed
qed

text \<open>
  C9: a constructor copies the value of the static vtable into the new instance, so the
  instance carries its own dispatch record, equal to the static's value at construction
  time. Assigning any other values to \<open>rect_vtable\<close> and \<open>circle_vtable\<close> afterwards
  leaves the instance untouched, and \<open>call_stuff\<close> on it does exactly what it does
  without the assignment: it dispatches to the same draw function.
\<close>

theorem instance_vtable_is_a_copy:
  "(rect_new p s = Inr (figr, sr) \<longrightarrow>
      (\<exists>a rect. figr = Ptr a \<and> heap sr a = Some (Rect_obj rect) \<and>
         vtable (Rect.base rect) = rect_vtable s \<and>
         (\<forall>v w. heap (set_statics v w sr) a = Some (Rect_obj rect) \<and>
            call_stuff figr (set_statics v w sr) =
              map_sum id (set_statics v w) (call_stuff figr sr)))) \<and>
   (circle_new r s = Inr (figc, sc) \<longrightarrow>
      (\<exists>a circle. figc = Ptr a \<and> heap sc a = Some (Circle_obj circle) \<and>
         vtable (Circle.base circle) = circle_vtable s \<and>
         (\<forall>v w. heap (set_statics v w sc) a = Some (Circle_obj circle) \<and>
            call_stuff figc (set_statics v w sc) =
              map_sum id (set_statics v w) (call_stuff figc sc))))"
proof (intro conjI impI)
  assume new: "rect_new p s = Inr (figr, sr)"
  let ?R = "\<lparr>Rect.base = \<lparr>vtable = rect_vtable s\<rparr>, perimeter = p\<rparr>"
  from rect_new_Inr [OF new] have f: "figr = Ptr (brk s)" and h: "heap sr (brk s) = Some (Rect_obj ?R)"
    by simp_all
  have v: "vtable (Rect.base ?R) = rect_vtable s" by simp
  from h have "\<forall>v w. heap (set_statics v w sr) (brk s) = Some (Rect_obj ?R) \<and>
      call_stuff figr (set_statics v w sr) = map_sum id (set_statics v w) (call_stuff figr sr)"
    by (simp add: heap_set_statics call_stuff_set_statics)
  with f h v show "\<exists>a rect. figr = Ptr a \<and> heap sr a = Some (Rect_obj rect) \<and>
         vtable (Rect.base rect) = rect_vtable s \<and>
         (\<forall>v w. heap (set_statics v w sr) a = Some (Rect_obj rect) \<and>
            call_stuff figr (set_statics v w sr) =
              map_sum id (set_statics v w) (call_stuff figr sr))"
    by blast
next
  assume new: "circle_new r s = Inr (figc, sc)"
  let ?C = "\<lparr>Circle.base = \<lparr>vtable = circle_vtable s\<rparr>, radius = r\<rparr>"
  from circle_new_Inr [OF new] have f: "figc = Ptr (brk s)" and h: "heap sc (brk s) = Some (Circle_obj ?C)"
    by simp_all
  have v: "vtable (Circle.base ?C) = circle_vtable s" by simp
  from h have "\<forall>v w. heap (set_statics v w sc) (brk s) = Some (Circle_obj ?C) \<and>
      call_stuff figc (set_statics v w sc) = map_sum id (set_statics v w) (call_stuff figc sc)"
    by (simp add: heap_set_statics call_stuff_set_statics)
  with f h v show "\<exists>a circle. figc = Ptr a \<and> heap sc a = Some (Circle_obj circle) \<and>
         vtable (Circle.base circle) = circle_vtable s \<and>
         (\<forall>v w. heap (set_statics v w sc) a = Some (Circle_obj circle) \<and>
            call_stuff figc (set_statics v w sc) =
              map_sum id (set_statics v w) (call_stuff figc sc))"
    by blast
qed

theorem instance_vtable_is_a_copy_witness:
  "rect_new 10 (program_start 1) =
     Inr (Ptr 0, \<lparr>rect_vtable = rect_vtable_init, circle_vtable = circle_vtable_init,
      heap = [0 \<mapsto> Rect_obj \<lparr>Rect.base = \<lparr>vtable = rect_vtable_init\<rparr>, perimeter = 10\<rparr>],
      brk = 1, heap_avail = 0, stdout = []\<rparr>) \<and>
   circle_new 8 (program_start 1) =
     Inr (Ptr 0, \<lparr>rect_vtable = rect_vtable_init, circle_vtable = circle_vtable_init,
      heap = [0 \<mapsto> Circle_obj \<lparr>Circle.base = \<lparr>vtable = circle_vtable_init\<rparr>, radius = 8\<rparr>],
      brk = 1, heap_avail = 0, stdout = []\<rparr>) \<and>
   call_stuff (Ptr 0)
     (set_statics circle_vtable_init rect_vtable_init
       \<lparr>rect_vtable = rect_vtable_init, circle_vtable = circle_vtable_init,
      heap = [0 \<mapsto> Rect_obj \<lparr>Rect.base = \<lparr>vtable = rect_vtable_init\<rparr>, perimeter = 10\<rparr>],
      brk = 1, heap_avail = 0, stdout = []\<rparr>) =
     Inr (set_statics circle_vtable_init rect_vtable_init
       (\<lparr>rect_vtable = rect_vtable_init, circle_vtable = circle_vtable_init,
      heap = [0 \<mapsto> Rect_obj \<lparr>Rect.base = \<lparr>vtable = rect_vtable_init\<rparr>, perimeter = 10\<rparr>],
      brk = 1, heap_avail = 0, stdout = []\<rparr>
        \<lparr>stdout := ''Drawing Rect with perimeter: 10\<newline>''\<rparr>)) \<and>
   call_stuff (Ptr 0)
     (set_statics circle_vtable_init rect_vtable_init
       \<lparr>rect_vtable = rect_vtable_init, circle_vtable = circle_vtable_init,
      heap = [0 \<mapsto> Circle_obj \<lparr>Circle.base = \<lparr>vtable = circle_vtable_init\<rparr>, radius = 8\<rparr>],
      brk = 1, heap_avail = 0, stdout = []\<rparr>) =
     Inr (set_statics circle_vtable_init rect_vtable_init
       (\<lparr>rect_vtable = rect_vtable_init, circle_vtable = circle_vtable_init,
      heap = [0 \<mapsto> Circle_obj \<lparr>Circle.base = \<lparr>vtable = circle_vtable_init\<rparr>, radius = 8\<rparr>],
      brk = 1, heap_avail = 0, stdout = []\<rparr>
        \<lparr>stdout := ''Drawing Circle with radius: 8\<newline>''\<rparr>))"
proof -
  let ?R = "\<lparr>Rect.base = \<lparr>vtable = rect_vtable_init\<rparr>, perimeter = 10\<rparr>"
  let ?C = "\<lparr>Circle.base = \<lparr>vtable = circle_vtable_init\<rparr>, radius = 8\<rparr>"
  let ?SR = "\<lparr>rect_vtable = rect_vtable_init, circle_vtable = circle_vtable_init,
      heap = [0 \<mapsto> Rect_obj \<lparr>Rect.base = \<lparr>vtable = rect_vtable_init\<rparr>, perimeter = 10\<rparr>],
      brk = 1, heap_avail = 0, stdout = []\<rparr>"
  let ?SC = "\<lparr>rect_vtable = rect_vtable_init, circle_vtable = circle_vtable_init,
      heap = [0 \<mapsto> Circle_obj \<lparr>Circle.base = \<lparr>vtable = circle_vtable_init\<rparr>, radius = 8\<rparr>],
      brk = 1, heap_avail = 0, stdout = []\<rparr>"
  have r: "rect_new 10 (program_start 1) = Inr (Ptr 0, ?SR)"
    by (simp add: rect_new_ok program_start_def)
  have c: "circle_new 8 (program_start 1) = Inr (Ptr 0, ?SC)"
    by (simp add: circle_new_ok program_start_def)
  have dr: "call_stuff (Ptr 0) ?SR = Inr (?SR\<lparr>stdout := ''Drawing Rect with perimeter: 10\<newline>''\<rparr>)"
    using call_stuff_rect [of ?SR 0 ?R] by (simp add: rect_vtable_init_def rect_line_10)
  have dc: "call_stuff (Ptr 0) ?SC = Inr (?SC\<lparr>stdout := ''Drawing Circle with radius: 8\<newline>''\<rparr>)"
    using call_stuff_circle [of ?SC 0 ?C] by (simp add: circle_vtable_init_def circle_line_8)
  note copy = instance_vtable_is_a_copy [of 10 "program_start 1" "Ptr 0" ?SR 8 "Ptr 0" ?SC]
  from copy r have
    "call_stuff (Ptr 0) (set_statics circle_vtable_init rect_vtable_init ?SR) =
       map_sum id (set_statics circle_vtable_init rect_vtable_init) (call_stuff (Ptr 0) ?SR)"
    by blast
  then have 1: "call_stuff (Ptr 0) (set_statics circle_vtable_init rect_vtable_init ?SR) =
      Inr (set_statics circle_vtable_init rect_vtable_init
        (?SR\<lparr>stdout := ''Drawing Rect with perimeter: 10\<newline>''\<rparr>))"
    by (simp only: dr map_sum.simps)
  from copy c have
    "call_stuff (Ptr 0) (set_statics circle_vtable_init rect_vtable_init ?SC) =
       map_sum id (set_statics circle_vtable_init rect_vtable_init) (call_stuff (Ptr 0) ?SC)"
    by blast
  then have 2: "call_stuff (Ptr 0) (set_statics circle_vtable_init rect_vtable_init ?SC) =
      Inr (set_statics circle_vtable_init rect_vtable_init
        (?SC\<lparr>stdout := ''Drawing Circle with radius: 8\<newline>''\<rparr>))"
    by (simp only: dc map_sum.simps)
  from r c 1 2 show ?thesis by (intro conjI)
qed

section \<open>Determinism of draw\<close>

lemma run_inv_draw:
  assumes "run_inv s" and "heap s a = Some obj"
  shows "call_stuff (Ptr a) s = Inr (s\<lparr>stdout := stdout s @ object_line obj\<rparr>)"
proof -
  from assms have "vtable_matches obj" by (auto simp: run_inv_def)
  with assms(2) show ?thesis by (rule call_stuff_object_line)
qed

lemma run_inv_rect_new_draw:
  assumes "run_inv s" and "rect_new v s = Inr (fig, s1)"
  shows "call_stuff fig s1 = Inr (s1\<lparr>stdout := stdout s1 @ rect_line v\<rparr>)"
proof -
  let ?R = "\<lparr>Rect.base = \<lparr>vtable = rect_vtable s\<rparr>, perimeter = v\<rparr>"
  from rect_new_Inr [OF assms(2)] have f: "fig = Ptr (brk s)"
    and h: "heap s1 (brk s) = Some (Rect_obj ?R)"
    by simp_all
  from assms have "run_inv s1" by (rule run_inv_rect_new)
  from run_inv_draw [OF this h] f show ?thesis by simp
qed

lemma run_inv_circle_new_draw:
  assumes "run_inv s" and "circle_new v s = Inr (fig, s1)"
  shows "call_stuff fig s1 = Inr (s1\<lparr>stdout := stdout s1 @ circle_line v\<rparr>)"
proof -
  let ?C = "\<lparr>Circle.base = \<lparr>vtable = circle_vtable s\<rparr>, radius = v\<rparr>"
  from circle_new_Inr [OF assms(2)] have f: "fig = Ptr (brk s)"
    and h: "heap s1 (brk s) = Some (Circle_obj ?C)"
    by simp_all
  from assms have "run_inv s1" by (rule run_inv_circle_new)
  from run_inv_draw [OF this h] f show ?thesis by simp
qed

text \<open>
  C10: what \<open>call_stuff\<close> prints for an instance depends only on the instance's variant
  and stored integer. Take any two runs of the program, from any start allocator and
  through any operations. Two rectangles constructed with the same argument, one in
  each run, print the same line when drawn, and so do two circles; likewise any two
  live rectangles (or circles) with equal fields, wherever they are in the two heaps and
  whatever has been printed before.
\<close>

theorem draw_output_determined_by_field:
  assumes "exec_ops xs1 (program_start cap1) = Inr s1"
    and "exec_ops xs2 (program_start cap2) = Inr s2"
  shows "(\<forall>v f1 t1 f2 t2.
            rect_new v s1 = Inr (f1, t1) \<and> rect_new v s2 = Inr (f2, t2) \<longrightarrow>
            (\<exists>line. call_stuff f1 t1 = Inr (t1\<lparr>stdout := stdout t1 @ line\<rparr>) \<and>
                    call_stuff f2 t2 = Inr (t2\<lparr>stdout := stdout t2 @ line\<rparr>))) \<and>
         (\<forall>v f1 t1 f2 t2.
            circle_new v s1 = Inr (f1, t1) \<and> circle_new v s2 = Inr (f2, t2) \<longrightarrow>
            (\<exists>line. call_stuff f1 t1 = Inr (t1\<lparr>stdout := stdout t1 @ line\<rparr>) \<and>
                    call_stuff f2 t2 = Inr (t2\<lparr>stdout := stdout t2 @ line\<rparr>))) \<and>
         (\<forall>a1 a2 r1 r2.
            heap s1 a1 = Some (Rect_obj r1) \<and> heap s2 a2 = Some (Rect_obj r2) \<and>
            perimeter r1 = perimeter r2 \<longrightarrow>
            (\<exists>line. call_stuff (Ptr a1) s1 = Inr (s1\<lparr>stdout := stdout s1 @ line\<rparr>) \<and>
                    call_stuff (Ptr a2) s2 = Inr (s2\<lparr>stdout := stdout s2 @ line\<rparr>))) \<and>
         (\<forall>a1 a2 c1 c2.
            heap s1 a1 = Some (Circle_obj c1) \<and> heap s2 a2 = Some (Circle_obj c2) \<and>
            radius c1 = radius c2 \<longrightarrow>
            (\<exists>line. call_stuff (Ptr a1) s1 = Inr (s1\<lparr>stdout := stdout s1 @ line\<rparr>) \<and>
                    call_stuff (Ptr a2) s2 = Inr (s2\<lparr>stdout := stdout s2 @ line\<rparr>)))"
proof -
  from assms have i1: "run_inv s1" and i2: "run_inv s2"
    by (blast intro: run_inv_reachable)+
  have 1: "\<forall>v f1 t1 f2 t2.
      rect_new v s1 = Inr (f1, t1) \<and> rect_new v s2 = Inr (f2, t2) \<longrightarrow>
      (\<exists>line. call_stuff f1 t1 = Inr (t1\<lparr>stdout := stdout t1 @ line\<rparr>) \<and>
              call_stuff f2 t2 = Inr (t2\<lparr>stdout := stdout t2 @ line\<rparr>))"
    using run_inv_rect_new_draw [OF i1] run_inv_rect_new_draw [OF i2] by blast
  have 2: "\<forall>v f1 t1 f2 t2.
      circle_new v s1 = Inr (f1, t1) \<and> circle_new v s2 = Inr (f2, t2) \<longrightarrow>
      (\<exists>line. call_stuff f1 t1 = Inr (t1\<lparr>stdout := stdout t1 @ line\<rparr>) \<and>
              call_stuff f2 t2 = Inr (t2\<lparr>stdout := stdout t2 @ line\<rparr>))"
    using run_inv_circle_new_draw [OF i1] run_inv_circle_new_draw [OF i2] by blast
  have 3: "\<forall>a1 a2 r1 r2.
      heap s1 a1 = Some (Rect_obj r1) \<and> heap s2 a2 = Some (Rect_obj r2) \<and>
      perimeter r1 = perimeter r2 \<longrightarrow>
      (\<exists>line. call_stuff (Ptr a1) s1 = Inr (s1\<lparr>stdout := stdout s1 @ line\<rparr>) \<and>
              call_stuff (Ptr a2) s2 = Inr (s2\<lparr>stdout := stdout s2 @ line\<rparr>))"
  proof (intro allI impI)
    fix a1 a2 r1 r2
    assume h: "heap s1 a1 = Some (Rect_obj r1) \<and> heap s2 a2 = Some (Rect_obj r2) \<and>
      perimeter r1 = perimeter r2"
    from h run_inv_draw [OF i1, of a1 "Rect_obj r1"] run_inv_draw [OF i2, of a2 "Rect_obj r2"]
    have "call_stuff (Ptr a1) s1 = Inr (s1\<lparr>stdout := stdout s1 @ rect_line (perimeter r1)\<rparr>) \<and>
      call_stuff (Ptr a2) s2 = Inr (s2\<lparr>stdout := stdout s2 @ rect_line (perimeter r1)\<rparr>)"
      by simp
    then show "\<exists>line. call_stuff (Ptr a1) s1 = Inr (s1\<lparr>stdout := stdout s1 @ line\<rparr>) \<and>
              call_stuff (Ptr a2) s2 = Inr (s2\<lparr>stdout := stdout s2 @ line\<rparr>)"
      by blast
  qed
  have 4: "\<forall>a1 a2 c1 c2.
      heap s1 a1 = Some (Circle_obj c1) \<and> heap s2 a2 = Some (Circle_obj c2) \<and>
      radius c1 = radius c2 \<longrightarrow>
      (\<exists>line. call_stuff (Ptr a1) s1 = Inr (s1\<lparr>stdout := stdout s1 @ line\<rparr>) \<and>
              call_stuff (Ptr a2) s2 = Inr (s2\<lparr>stdout := stdout s2 @ line\<rparr>))"
  proof (intro allI impI)
    fix a1 a2 c1 c2
    assume h: "heap s1 a1 = Some (Circle_obj c1) \<and> heap s2 a2 = Some (Circle_obj c2) \<and>
      radius c1 = radius c2"
    from h run_inv_draw [OF i1, of a1 "Circle_obj c1"] run_inv_draw [OF i2, of a2 "Circle_obj c2"]
    have "call_stuff (Ptr a1) s1 = Inr (s1\<lparr>stdout := stdout s1 @ circle_line (radius c1)\<rparr>) \<and>
      call_stuff (Ptr a2) s2 = Inr (s2\<lparr>stdout := stdout s2 @ circle_line (radius c1)\<rparr>)"
      by simp
    then show "\<exists>line. call_stuff (Ptr a1) s1 = Inr (s1\<lparr>stdout := stdout s1 @ line\<rparr>) \<and>
              call_stuff (Ptr a2) s2 = Inr (s2\<lparr>stdout := stdout s2 @ line\<rparr>)"
      by blast
  qed
  from 1 2 3 4 show ?thesis by (intro conjI)
qed

lemma show_int_num_3: "show_int 3 = ''3''"
  by (simp add: show_int_def show_nat.simps digit_char_def)

lemma run_a:
  "exec_ops [Op_rect_new 7, Op_circle_new 3] (program_start 3) =
     Inr \<lparr>rect_vtable = rect_vtable_init, circle_vtable = circle_vtable_init,
        heap = [0 \<mapsto> Rect_obj \<lparr>Rect.base = \<lparr>vtable = rect_vtable_init\<rparr>, perimeter = 7\<rparr>,
                1 \<mapsto> Circle_obj \<lparr>Circle.base = \<lparr>vtable = circle_vtable_init\<rparr>, radius = 3\<rparr>],
        brk = 2, heap_avail = 1, stdout = []\<rparr>"
  by (simp add: program_start_def rect_new_ok circle_new_ok)

lemma run_b:
  "exec_ops [Op_circle_new 3, Op_call_stuff (Ptr 0), Op_rect_new 7] (program_start 4) =
     Inr \<lparr>rect_vtable = rect_vtable_init, circle_vtable = circle_vtable_init,
        heap = [0 \<mapsto> Circle_obj \<lparr>Circle.base = \<lparr>vtable = circle_vtable_init\<rparr>, radius = 3\<rparr>,
                1 \<mapsto> Rect_obj \<lparr>Rect.base = \<lparr>vtable = rect_vtable_init\<rparr>, perimeter = 7\<rparr>],
        brk = 2, heap_avail = 2, stdout = ''Drawing Circle with radius: 3\<newline>''\<rparr>"
  by (simp add: program_start_def rect_new_ok circle_new_ok call_stuff_def circle_vtable_init_def
      draw_circle_ok circle_line_def show_int_num_3)

theorem draw_output_determined_by_field_witness:
  "exec_ops [Op_rect_new 7, Op_circle_new 3] (program_start 3) =
     Inr \<lparr>rect_vtable = rect_vtable_init, circle_vtable = circle_vtable_init,
        heap = [0 \<mapsto> Rect_obj \<lparr>Rect.base = \<lparr>vtable = rect_vtable_init\<rparr>, perimeter = 7\<rparr>,
                1 \<mapsto> Circle_obj \<lparr>Circle.base = \<lparr>vtable = circle_vtable_init\<rparr>, radius = 3\<rparr>],
        brk = 2, heap_avail = 1, stdout = []\<rparr> \<and>
   exec_ops [Op_circle_new 3, Op_call_stuff (Ptr 0), Op_rect_new 7] (program_start 4) =
     Inr \<lparr>rect_vtable = rect_vtable_init, circle_vtable = circle_vtable_init,
        heap = [0 \<mapsto> Circle_obj \<lparr>Circle.base = \<lparr>vtable = circle_vtable_init\<rparr>, radius = 3\<rparr>,
                1 \<mapsto> Rect_obj \<lparr>Rect.base = \<lparr>vtable = rect_vtable_init\<rparr>, perimeter = 7\<rparr>],
        brk = 2, heap_avail = 2, stdout = ''Drawing Circle with radius: 3\<newline>''\<rparr> \<and>
   (\<exists>f1 t1 f2 t2 line.
      rect_new 10 \<lparr>rect_vtable = rect_vtable_init, circle_vtable = circle_vtable_init,
        heap = [0 \<mapsto> Rect_obj \<lparr>Rect.base = \<lparr>vtable = rect_vtable_init\<rparr>, perimeter = 7\<rparr>,
                1 \<mapsto> Circle_obj \<lparr>Circle.base = \<lparr>vtable = circle_vtable_init\<rparr>, radius = 3\<rparr>],
        brk = 2, heap_avail = 1, stdout = []\<rparr> = Inr (f1, t1) \<and>
      rect_new 10 \<lparr>rect_vtable = rect_vtable_init, circle_vtable = circle_vtable_init,
        heap = [0 \<mapsto> Circle_obj \<lparr>Circle.base = \<lparr>vtable = circle_vtable_init\<rparr>, radius = 3\<rparr>,
                1 \<mapsto> Rect_obj \<lparr>Rect.base = \<lparr>vtable = rect_vtable_init\<rparr>, perimeter = 7\<rparr>],
        brk = 2, heap_avail = 2, stdout = ''Drawing Circle with radius: 3\<newline>''\<rparr> = Inr (f2, t2) \<and>
      call_stuff f1 t1 = Inr (t1\<lparr>stdout := stdout t1 @ line\<rparr>) \<and>
      call_stuff f2 t2 = Inr (t2\<lparr>stdout := stdout t2 @ line\<rparr>)) \<and>
   (\<exists>f1 t1 f2 t2 line.
      circle_new 8 \<lparr>rect_vtable = rect_vtable_init, circle_vtable = circle_vtable_init,
        heap = [0 \<mapsto> Rect_obj \<lparr>Rect.base = \<lparr>vtable = rect_vtable_init\<rparr>, perimeter = 7\<rparr>,
                1 \<mapsto> Circle_obj \<lparr>Circle.base = \<lparr>vtable = circle_vtable_init\<rparr>, radius = 3\<rparr>],
        brk = 2, heap_avail = 1, stdout = []\<rparr> = Inr (f1, t1) \<and>
      circle_new 8 \<lparr>rect_vtable = rect_vtable_init, circle_vtable = circle_vtable_init,
        heap = [0 \<mapsto> Circle_obj \<lparr>Circle.base = \<lparr>vtable = circle_vtable_init\<rparr>, radius = 3\<rparr>,
                1 \<mapsto> Rect_obj \<lparr>Rect.base = \<lparr>vtable = rect_vtable_init\<rparr>, perimeter = 7\<rparr>],
        brk = 2, heap_avail = 2, stdout = ''Drawing Circle with radius: 3\<newline>''\<rparr> = Inr (f2, t2) \<and>
      call_stuff f1 t1 = Inr (t1\<lparr>stdout := stdout t1 @ line\<rparr>) \<and>
      call_stuff f2 t2 = Inr (t2\<lparr>stdout := stdout t2 @ line\<rparr>)) \<and>
   (\<exists>line.
      call_stuff (Ptr 0) \<lparr>rect_vtable = rect_vtable_init, circle_vtable = circle_vtable_init,
        heap = [0 \<mapsto> Rect_obj \<lparr>Rect.base = \<lparr>vtable = rect_vtable_init\<rparr>, perimeter = 7\<rparr>,
                1 \<mapsto> Circle_obj \<lparr>Circle.base = \<lparr>vtable = circle_vtable_init\<rparr>, radius = 3\<rparr>],
        brk = 2, heap_avail = 1, stdout = []\<rparr> =
        Inr (\<lparr>rect_vtable = rect_vtable_init, circle_vtable = circle_vtable_init,
        heap = [0 \<mapsto> Rect_obj \<lparr>Rect.base = \<lparr>vtable = rect_vtable_init\<rparr>, perimeter = 7\<rparr>,
                1 \<mapsto> Circle_obj \<lparr>Circle.base = \<lparr>vtable = circle_vtable_init\<rparr>, radius = 3\<rparr>],
        brk = 2, heap_avail = 1, stdout = []\<rparr>\<lparr>stdout := [] @ line\<rparr>) \<and>
      call_stuff (Ptr 1) \<lparr>rect_vtable = rect_vtable_init, circle_vtable = circle_vtable_init,
        heap = [0 \<mapsto> Circle_obj \<lparr>Circle.base = \<lparr>vtable = circle_vtable_init\<rparr>, radius = 3\<rparr>,
                1 \<mapsto> Rect_obj \<lparr>Rect.base = \<lparr>vtable = rect_vtable_init\<rparr>, perimeter = 7\<rparr>],
        brk = 2, heap_avail = 2, stdout = ''Drawing Circle with radius: 3\<newline>''\<rparr> =
        Inr (\<lparr>rect_vtable = rect_vtable_init, circle_vtable = circle_vtable_init,
        heap = [0 \<mapsto> Circle_obj \<lparr>Circle.base = \<lparr>vtable = circle_vtable_init\<rparr>, radius = 3\<rparr>,
                1 \<mapsto> Rect_obj \<lparr>Rect.base = \<lparr>vtable = rect_vtable_init\<rparr>, perimeter = 7\<rparr>],
        brk = 2, heap_avail = 2, stdout = ''Drawing Circle with radius: 3\<newline>''\<rparr>\<lparr>stdout := ''Drawing Circle with radius: 3\<newline>'' @ line\<rparr>)) \<and>
   (\<exists>line.
      call_stuff (Ptr 1) \<lparr>rect_vtable = rect_vtable_init, circle_vtable = circle_vtable_init,
        heap = [0 \<mapsto> Rect_obj \<lparr>Rect.base = \<lparr>vtable = rect_vtable_init\<rparr>, perimeter = 7\<rparr>,
                1 \<mapsto> Circle_obj \<lparr>Circle.base = \<lparr>vtable = circle_vtable_init\<rparr>, radius = 3\<rparr>],
        brk = 2, heap_avail = 1, stdout = []\<rparr> =
        Inr (\<lparr>rect_vtable = rect_vtable_init, circle_vtable = circle_vtable_init,
        heap = [0 \<mapsto> Rect_obj \<lparr>Rect.base = \<lparr>vtable = rect_vtable_init\<rparr>, perimeter = 7\<rparr>,
                1 \<mapsto> Circle_obj \<lparr>Circle.base = \<lparr>vtable = circle_vtable_init\<rparr>, radius = 3\<rparr>],
        brk = 2, heap_avail = 1, stdout = []\<rparr>\<lparr>stdout := [] @ line\<rparr>) \<and>
      call_stuff (Ptr 0) \<lparr>rect_vtable = rect_vtable_init, circle_vtable = circle_vtable_init,
        heap = [0 \<mapsto> Circle_obj \<lparr>Circle.base = \<lparr>vtable = circle_vtable_init\<rparr>, radius = 3\<rparr>,
                1 \<mapsto> Rect_obj \<lparr>Rect.base = \<lparr>vtable = rect_vtable_init\<rparr>, perimeter = 7\<rparr>],
        brk = 2, heap_avail = 2, stdout = ''Drawing Circle with radius: 3\<newline>''\<rparr> =
        Inr (\<lparr>rect_vtable = rect_vtable_init, circle_vtable = circle_vtable_init,
        heap = [0 \<mapsto> Circle_obj \<lparr>Circle.base = \<lparr>vtable = circle_vtable_init\<rparr>, radius = 3\<rparr>,
                1 \<mapsto> Rect_obj \<lparr>Rect.base = \<lparr>vtable = rect_vtable_init\<rparr>, perimeter = 7\<rparr>],
        brk = 2, heap_avail = 2, stdout = ''Drawing Circle with radius: 3\<newline>''\<rparr>\<lparr>stdout := ''Drawing Circle with radius: 3\<newline>'' @ line\<rparr>))"
proof -
  let ?R = "\<lparr>Rect.base = \<lparr>vtable = rect_vtable_init\<rparr>, perimeter = 7\<rparr>"
  let ?C = "\<lparr>Circle.base = \<lparr>vtable = circle_vtable_init\<rparr>, radius = 3\<rparr>"
  let ?S1 = "\<lparr>rect_vtable = rect_vtable_init, circle_vtable = circle_vtable_init,
        heap = [0 \<mapsto> Rect_obj \<lparr>Rect.base = \<lparr>vtable = rect_vtable_init\<rparr>, perimeter = 7\<rparr>,
                1 \<mapsto> Circle_obj \<lparr>Circle.base = \<lparr>vtable = circle_vtable_init\<rparr>, radius = 3\<rparr>],
        brk = 2, heap_avail = 1, stdout = []\<rparr>"
  let ?S2 = "\<lparr>rect_vtable = rect_vtable_init, circle_vtable = circle_vtable_init,
        heap = [0 \<mapsto> Circle_obj \<lparr>Circle.base = \<lparr>vtable = circle_vtable_init\<rparr>, radius = 3\<rparr>,
                1 \<mapsto> Rect_obj \<lparr>Rect.base = \<lparr>vtable = rect_vtable_init\<rparr>, perimeter = 7\<rparr>],
        brk = 2, heap_avail = 2, stdout = ''Drawing Circle with radius: 3\<newline>''\<rparr>"
  note det = draw_output_determined_by_field [OF run_a run_b]
  note d1 = det [THEN conjunct1, rule_format]
  note d2 = det [THEN conjunct2, THEN conjunct1, rule_format]
  note d3 = det [THEN conjunct2, THEN conjunct2, THEN conjunct1, rule_format]
  note d4 = det [THEN conjunct2, THEN conjunct2, THEN conjunct2, rule_format]
  have o1: "stdout ?S1 = []" by simp
  have o2: "stdout ?S2 = ''Drawing Circle with radius: 3\<newline>''" by simp
  obtain f1 t1 where r1: "rect_new 10 ?S1 = Inr (f1, t1)"
    by (simp add: rect_new_ok)
  obtain f2 t2 where r2: "rect_new 10 ?S2 = Inr (f2, t2)"
    by (simp add: rect_new_ok)
  from d1 [OF conjI [OF r1 r2]] r1 r2 have 1: "\<exists>f1 t1 f2 t2 line.
      rect_new 10 ?S1 = Inr (f1, t1) \<and> rect_new 10 ?S2 = Inr (f2, t2) \<and>
      call_stuff f1 t1 = Inr (t1\<lparr>stdout := stdout t1 @ line\<rparr>) \<and>
      call_stuff f2 t2 = Inr (t2\<lparr>stdout := stdout t2 @ line\<rparr>)"
    by blast
  obtain g1 u1 where c1: "circle_new 8 ?S1 = Inr (g1, u1)"
    by (simp add: circle_new_ok)
  obtain g2 u2 where c2: "circle_new 8 ?S2 = Inr (g2, u2)"
    by (simp add: circle_new_ok)
  from d2 [OF conjI [OF c1 c2]] c1 c2 have 2: "\<exists>f1 t1 f2 t2 line.
      circle_new 8 ?S1 = Inr (f1, t1) \<and> circle_new 8 ?S2 = Inr (f2, t2) \<and>
      call_stuff f1 t1 = Inr (t1\<lparr>stdout := stdout t1 @ line\<rparr>) \<and>
      call_stuff f2 t2 = Inr (t2\<lparr>stdout := stdout t2 @ line\<rparr>)"
    by blast
  have hr: "heap ?S1 0 = Some (Rect_obj ?R) \<and> heap ?S2 1 = Some (Rect_obj ?R) \<and>
      perimeter ?R = perimeter ?R"
    by simp
  from d3 [OF this] have "\<exists>line.
      call_stuff (Ptr 0) ?S1 = Inr (?S1\<lparr>stdout := stdout ?S1 @ line\<rparr>) \<and>
      call_stuff (Ptr 1) ?S2 = Inr (?S2\<lparr>stdout := stdout ?S2 @ line\<rparr>)"
    .
  then have 3: "\<exists>line.
      call_stuff (Ptr 0) ?S1 = Inr (?S1\<lparr>stdout := [] @ line\<rparr>) \<and>
      call_stuff (Ptr 1) ?S2 =
        Inr (?S2\<lparr>stdout := ''Drawing Circle with radius: 3\<newline>'' @ line\<rparr>)"
    unfolding o1 o2 .
  have hc: "heap ?S1 1 = Some (Circle_obj ?C) \<and> heap ?S2 0 = Some (Circle_obj ?C) \<and>
      radius ?C = radius ?C"
    by simp
  from d4 [OF this] have "\<exists>line.
      call_stuff (Ptr 1) ?S1 = Inr (?S1\<lparr>stdout := stdout ?S1 @ line\<rparr>) \<and>
      call_stuff (Ptr 0) ?S2 = Inr (?S2\<lparr>stdout := stdout ?S2 @ line\<rparr>)"
    .
  then have 4: "\<exists>line.
      call_stuff (Ptr 1) ?S1 = Inr (?S1\<lparr>stdout := [] @ line\<rparr>) \<and>
      call_stuff (Ptr 0) ?S2 =
        Inr (?S2\<lparr>stdout := ''Drawing Circle with radius: 3\<newline>'' @ line\<rparr>)"
    unfolding o1 o2 .
  from run_a run_b 1 2 3 4 show ?thesis by (intro conjI)
qed

section \<open>The error model\<close>

lemma malloc_NULL_iff: "fst (malloc s) = NULL \<longleftrightarrow> heap_avail s = 0"
  by (simp add: malloc_def)

lemma main_alloc_fail_second: "main (program_start 1) = Inl Null_deref"
proof -
  let ?R = "\<lparr>Rect.base = \<lparr>vtable = rect_vtable_init\<rparr>, perimeter = 10\<rparr>"
  let ?s1 = "\<lparr>rect_vtable = rect_vtable_init, circle_vtable = circle_vtable_init,
             heap = [0 \<mapsto> Rect_obj ?R], brk = 1, heap_avail = 0, stdout = []\<rparr>"
  let ?s2 = "?s1\<lparr>stdout := ''Drawing Rect with perimeter: 10\<newline>''\<rparr>"
  have 1: "rect_new 10 (program_start 1) = Inr (Ptr 0, ?s1)"
    by (simp add: rect_new_ok program_start_def)
  have 2: "call_stuff (Ptr 0) ?s1 = Inr ?s2"
    using call_stuff_rect [of ?s1 0 ?R] by (simp add: rect_vtable_init_def rect_line_10)
  have 3: "circle_new 8 ?s2 = Inl Null_deref"
    by (simp add: circle_new_fail)
  show ?thesis
    by (simp only: main_def 1 2 3 sum.case prod.case)
qed

lemma main_alloc_fail: "c < 2 \<Longrightarrow> main (program_start c) = Inl Null_deref"
proof -
  assume "c < 2"
  then have "c = 0 \<or> c = 1" by arith
  then show ?thesis
    using main_alloc_fail_first main_alloc_fail_second by auto
qed

text \<open>
  C8, as stated, has allocation failure abort the program. It does not: with an
  exhausted allocator \<open>malloc\<close> returns \<open>NULL\<close>, the constructor does not look at the
  result, and its first store goes through the null pointer. The outcome is the
  undefined behaviour \<open>Null_deref\<close>, not \<open>Aborted\<close>.
\<close>

theorem allocation_failure_is_not_abort_counterexample:
  "fst (malloc (program_start 0)) = NULL \<and>
   rect_new 10 (program_start 0) = Inl Null_deref \<and>
   rect_new 10 (program_start 0) \<noteq> Inl Aborted \<and>
   circle_new 8 (program_start 0) = Inl Null_deref \<and>
   circle_new 8 (program_start 0) \<noteq> Inl Aborted"
  by (simp add: malloc_NULL_iff rect_new_fail circle_new_fail program_start_def)

text \<open>
  C8, amended: in every state a run of the program can reach, drawing a live instance
  through \<open>call_stuff\<close> cannot fail. A constructor fails exactly when \<open>malloc\<close>
  returns \<open>NULL\<close>, and it fails because that result is not checked: the failure is the
  store through the null pointer, an undefined behaviour and never an abort. When
  \<open>malloc\<close> succeeds the constructor succeeds and the new instance can be drawn.
  Nothing handles the failure: with fewer than two cells to allocate, \<open>main\<close> ends in
  that undefined behaviour instead of returning.
\<close>

theorem only_allocation_can_fail:
  assumes "exec_ops xs (program_start cap) = Inr s"
  shows "(\<forall>a obj. heap s a = Some obj \<longrightarrow> (\<exists>s'. call_stuff (Ptr a) s = Inr s')) \<and>
         (\<forall>v. fst (malloc s) = NULL \<longrightarrow>
            rect_new v s = Inl Null_deref \<and> circle_new v s = Inl Null_deref) \<and>
         (\<forall>v. fst (malloc s) \<noteq> NULL \<longrightarrow>
            (\<exists>fig s1 s2. rect_new v s = Inr (fig, s1) \<and> call_stuff fig s1 = Inr s2) \<and>
            (\<exists>fig s1 s2. circle_new v s = Inr (fig, s1) \<and> call_stuff fig s1 = Inr s2)) \<and>
         (\<forall>v e. rect_new v s = Inl e \<or> circle_new v s = Inl e \<longrightarrow>
            fst (malloc s) = NULL \<and> e = Null_deref \<and> e \<noteq> Aborted) \<and>
         (\<forall>c<2. main (program_start c) = Inl Null_deref)"
proof -
  from assms have inv: "run_inv s" by (rule run_inv_reachable)
  have 1: "\<forall>a obj. heap s a = Some obj \<longrightarrow> (\<exists>s'. call_stuff (Ptr a) s = Inr s')"
    using run_inv_draw [OF inv] by blast
  have 2: "\<forall>v. fst (malloc s) = NULL \<longrightarrow>
      rect_new v s = Inl Null_deref \<and> circle_new v s = Inl Null_deref"
    by (simp add: malloc_NULL_iff rect_new_fail circle_new_fail)
  have 3: "\<forall>v. fst (malloc s) \<noteq> NULL \<longrightarrow>
      (\<exists>fig s1 s2. rect_new v s = Inr (fig, s1) \<and> call_stuff fig s1 = Inr s2) \<and>
      (\<exists>fig s1 s2. circle_new v s = Inr (fig, s1) \<and> call_stuff fig s1 = Inr s2)"
  proof (intro allI impI)
    fix v assume "fst (malloc s) \<noteq> NULL"
    then have av: "0 < heap_avail s" by (simp add: malloc_NULL_iff)
    from rect_new_ok [OF av, of v] obtain fig s1 where r: "rect_new v s = Inr (fig, s1)"
      by blast
    from circle_new_ok [OF av, of v] obtain fig' s1' where c: "circle_new v s = Inr (fig', s1')"
      by blast
    from run_inv_rect_new_draw [OF inv r] run_inv_circle_new_draw [OF inv c] r c
    show "(\<exists>fig s1 s2. rect_new v s = Inr (fig, s1) \<and> call_stuff fig s1 = Inr s2) \<and>
      (\<exists>fig s1 s2. circle_new v s = Inr (fig, s1) \<and> call_stuff fig s1 = Inr s2)"
      by blast
  qed
  have 4: "\<forall>c<2. main (program_start c) = Inl Null_deref"
    by (simp add: main_alloc_fail)
  have 5: "\<forall>v e. rect_new v s = Inl e \<or> circle_new v s = Inl e \<longrightarrow>
      fst (malloc s) = NULL \<and> e = Null_deref \<and> e \<noteq> Aborted"
  proof (intro allI impI)
    fix v e assume f: "rect_new v s = Inl e \<or> circle_new v s = Inl e"
    have z: "heap_avail s = 0"
    proof (rule ccontr)
      assume "heap_avail s \<noteq> 0"
      then have "0 < heap_avail s" by simp
      from rect_new_ok [OF this, of v] circle_new_ok [OF this, of v] f show False by simp
    qed
    with f have "e = Null_deref" by (auto simp: rect_new_fail circle_new_fail)
    with z show "fst (malloc s) = NULL \<and> e = Null_deref \<and> e \<noteq> Aborted"
      by (simp add: malloc_NULL_iff)
  qed
  from 1 2 3 5 4 show ?thesis by (intro conjI)
qed

lemma run_one_of_one:
  "exec_ops [Op_rect_new 10] (program_start 1) =
     Inr \<lparr>rect_vtable = rect_vtable_init, circle_vtable = circle_vtable_init,
        heap = [0 \<mapsto> Rect_obj \<lparr>Rect.base = \<lparr>vtable = rect_vtable_init\<rparr>, perimeter = 10\<rparr>],
        brk = 1, heap_avail = 0, stdout = []\<rparr>"
  by (simp add: program_start_def rect_new_ok)

lemma run_one_of_two:
  "exec_ops [Op_rect_new 10] (program_start 2) =
     Inr \<lparr>rect_vtable = rect_vtable_init, circle_vtable = circle_vtable_init,
        heap = [0 \<mapsto> Rect_obj \<lparr>Rect.base = \<lparr>vtable = rect_vtable_init\<rparr>, perimeter = 10\<rparr>],
        brk = 1, heap_avail = 1, stdout = []\<rparr>"
  by (simp add: program_start_def rect_new_ok)

theorem only_allocation_can_fail_witness:
  "exec_ops [Op_rect_new 10] (program_start 1) =
     Inr \<lparr>rect_vtable = rect_vtable_init, circle_vtable = circle_vtable_init,
        heap = [0 \<mapsto> Rect_obj \<lparr>Rect.base = \<lparr>vtable = rect_vtable_init\<rparr>, perimeter = 10\<rparr>],
        brk = 1, heap_avail = 0, stdout = []\<rparr> \<and>
   (\<exists>s'. call_stuff (Ptr 0)
      \<lparr>rect_vtable = rect_vtable_init, circle_vtable = circle_vtable_init,
        heap = [0 \<mapsto> Rect_obj \<lparr>Rect.base = \<lparr>vtable = rect_vtable_init\<rparr>, perimeter = 10\<rparr>],
        brk = 1, heap_avail = 0, stdout = []\<rparr> = Inr s') \<and>
   rect_new 3
      \<lparr>rect_vtable = rect_vtable_init, circle_vtable = circle_vtable_init,
        heap = [0 \<mapsto> Rect_obj \<lparr>Rect.base = \<lparr>vtable = rect_vtable_init\<rparr>, perimeter = 10\<rparr>],
        brk = 1, heap_avail = 0, stdout = []\<rparr> = Inl Null_deref \<and>
   circle_new 3
      \<lparr>rect_vtable = rect_vtable_init, circle_vtable = circle_vtable_init,
        heap = [0 \<mapsto> Rect_obj \<lparr>Rect.base = \<lparr>vtable = rect_vtable_init\<rparr>, perimeter = 10\<rparr>],
        brk = 1, heap_avail = 0, stdout = []\<rparr> = Inl Null_deref \<and>
   exec_ops [Op_rect_new 10] (program_start 2) =
     Inr \<lparr>rect_vtable = rect_vtable_init, circle_vtable = circle_vtable_init,
        heap = [0 \<mapsto> Rect_obj \<lparr>Rect.base = \<lparr>vtable = rect_vtable_init\<rparr>, perimeter = 10\<rparr>],
        brk = 1, heap_avail = 1, stdout = []\<rparr> \<and>
   (\<exists>fig s1 s2. circle_new 3
      \<lparr>rect_vtable = rect_vtable_init, circle_vtable = circle_vtable_init,
        heap = [0 \<mapsto> Rect_obj \<lparr>Rect.base = \<lparr>vtable = rect_vtable_init\<rparr>, perimeter = 10\<rparr>],
        brk = 1, heap_avail = 1, stdout = []\<rparr> = Inr (fig, s1) \<and>
      call_stuff fig s1 = Inr s2) \<and>
   main (program_start 0) = Inl Null_deref \<and>
   main (program_start 1) = Inl Null_deref \<and>
   fst (malloc
      \<lparr>rect_vtable = rect_vtable_init, circle_vtable = circle_vtable_init,
        heap = [0 \<mapsto> Rect_obj \<lparr>Rect.base = \<lparr>vtable = rect_vtable_init\<rparr>, perimeter = 10\<rparr>],
        brk = 1, heap_avail = 0, stdout = []\<rparr>) = NULL"
proof -
  let ?S0 = "\<lparr>rect_vtable = rect_vtable_init, circle_vtable = circle_vtable_init,
        heap = [0 \<mapsto> Rect_obj \<lparr>Rect.base = \<lparr>vtable = rect_vtable_init\<rparr>, perimeter = 10\<rparr>],
        brk = 1, heap_avail = 0, stdout = []\<rparr>"
  let ?S1 = "\<lparr>rect_vtable = rect_vtable_init, circle_vtable = circle_vtable_init,
        heap = [0 \<mapsto> Rect_obj \<lparr>Rect.base = \<lparr>vtable = rect_vtable_init\<rparr>, perimeter = 10\<rparr>],
        brk = 1, heap_avail = 1, stdout = []\<rparr>"
  note a = only_allocation_can_fail [OF run_one_of_one]
  note b = only_allocation_can_fail [OF run_one_of_two]
  have h: "heap ?S0 0 = Some (Rect_obj \<lparr>Rect.base = \<lparr>vtable = rect_vtable_init\<rparr>, perimeter = 10\<rparr>)"
    by simp
  have n0: "fst (malloc ?S0) = NULL" by (simp add: malloc_def)
  have n1: "fst (malloc ?S1) \<noteq> NULL" by (simp add: malloc_def)
  from a [THEN conjunct1, rule_format, OF h]
  have 1: "\<exists>s'. call_stuff (Ptr 0) ?S0 = Inr s'" .
  from a [THEN conjunct2, THEN conjunct1, rule_format, OF n0, of 3]
  have 2: "rect_new 3 ?S0 = Inl Null_deref" and 3: "circle_new 3 ?S0 = Inl Null_deref"
    by simp_all
  from b [THEN conjunct2, THEN conjunct2, THEN conjunct1, rule_format, OF n1, of 3]
  have 4: "\<exists>fig s1 s2. circle_new 3 ?S1 = Inr (fig, s1) \<and> call_stuff fig s1 = Inr s2"
    by (rule conjunct2)
  from a [THEN conjunct2, THEN conjunct2, THEN conjunct2, THEN conjunct2, rule_format, of 0]
  have 5: "main (program_start 0) = Inl Null_deref" by simp
  from a [THEN conjunct2, THEN conjunct2, THEN conjunct2, THEN conjunct2, rule_format, of 1]
  have 6: "main (program_start 1) = Inl Null_deref" by simp
  from a [THEN conjunct2, THEN conjunct2, THEN conjunct2, THEN conjunct1, rule_format,
      of 3 Null_deref, OF disjI1 [OF 2]]
  have 7: "fst (malloc ?S0) = NULL" by (rule conjunct1)
  from run_one_of_one 1 2 3 run_one_of_two 4 5 6 7 show ?thesis by (intro conjI)
qed

end
